theory Spec2Isabelle
  imports Main "HOL-Library.AList"
begin

section \<open>Values, errors and the built-in operations the entity code relies on\<close>

text \<open>
  The fragment of Python values that entity fields hold: \<open>None\<close>, integers, strings, plain
  dictionaries and \<open>DictObject\<close>s. Dictionaries are keyed by strings and unordered, so they
  are maps. A \<open>DictObject\<close> is kept apart from a plain \<open>dict\<close> because \<open>__setitem__\<close>
  asks \<open>isinstance(value, DictObject)\<close>.
\<close>

datatype val =
    VNone
  | VInt int
  | VStr string
  | VDict "string \<Rightarrow> val option"
  | VDictObject "string \<Rightarrow> val option"

text \<open>
  Exceptions. \<open>Exception a\<close> is the \<open>Exception('Unknown argument type: a is a ...')\<close> of
  \<open>__init__\<close>; \<open>RuntimeError\<close> is Python's answer to unbounded recursion.
\<close>

datatype error =
    KeyError string
  | TypeError
  | AttributeError
  | RuntimeError
  | Exception string

definition and_then :: "error + 'a \<Rightarrow> ('a \<Rightarrow> error + 'b) \<Rightarrow> error + 'b" where
  "and_then r f = (case r of Inl err \<Rightarrow> Inl err | Inr x \<Rightarrow> f x)"

text \<open>\<open>isinstance(v, collections.Mapping)\<close>, with the mapping's content.\<close>

fun mapping_of :: "val \<Rightarrow> (string \<Rightarrow> val option) option" where
  "mapping_of (VDict m) = Some m"
| "mapping_of (VDictObject m) = Some m"
| "mapping_of _ = None"

definition isinstance_Mapping :: "val \<Rightarrow> bool" where
  "isinstance_Mapping v = (mapping_of v \<noteq> None)"

fun isinstance_DictObject :: "val \<Rightarrow> bool" where
  "isinstance_DictObject (VDictObject m) = True"
| "isinstance_DictObject _ = False"

fun isinstance_basestring :: "val \<Rightarrow> bool" where
  "isinstance_basestring (VStr s) = True"
| "isinstance_basestring _ = False"

text \<open>The same kind of mapping as \<open>v\<close>, with new content (an in-place change of \<open>v\<close>).\<close>

fun rewrap :: "val \<Rightarrow> (string \<Rightarrow> val option) \<Rightarrow> val" where
  "rewrap (VDictObject _) m = VDictObject m"
| "rewrap _ m = VDict m"

text \<open>Truth value of \<open>if v:\<close>.\<close>

fun truthy :: "val \<Rightarrow> bool" where
  "truthy VNone = False"
| "truthy (VInt i) = (i \<noteq> 0)"
| "truthy (VStr s) = (s \<noteq> [])"
| "truthy (VDict m) = (m \<noteq> Map.empty)"
| "truthy (VDictObject m) = (m \<noteq> Map.empty)"

text \<open>\<open>xs in ys\<close> on strings: \<open>xs\<close> occurs in \<open>ys\<close> as a contiguous run.\<close>

fun is_substring :: "string \<Rightarrow> string \<Rightarrow> bool" where
  "is_substring xs [] = (xs = [])"
| "is_substring xs (y # ys) = (take (length xs) (y # ys) = xs \<or> is_substring xs ys)"

text \<open>\<open>key in v\<close>.\<close>

fun contains :: "val \<Rightarrow> string \<Rightarrow> error + bool" where
  "contains (VDict m) key = Inr (key \<in> dom m)"
| "contains (VDictObject m) key = Inr (key \<in> dom m)"
| "contains (VStr s) key = Inr (is_substring key s)"
| "contains _ key = Inl TypeError"

text \<open>\<open>v[key]\<close>.\<close>

fun subscript :: "val \<Rightarrow> string \<Rightarrow> error + val" where
  "subscript (VDict m) key = (case m key of Some x \<Rightarrow> Inr x | None \<Rightarrow> Inl (KeyError key))"
| "subscript (VDictObject m) key = (case m key of Some x \<Rightarrow> Inr x | None \<Rightarrow> Inl (KeyError key))"
| "subscript _ key = Inl TypeError"

text \<open>\<open>v[key] = x\<close>, giving the changed \<open>v\<close>.\<close>

fun store_item :: "val \<Rightarrow> string \<Rightarrow> val \<Rightarrow> error + val" where
  "store_item (VDict m) key x = Inr (VDict (m(key \<mapsto> x)))"
| "store_item (VDictObject m) key x = Inr (VDictObject (m(key \<mapsto> x)))"
| "store_item _ key x = Inl TypeError"

text \<open>\<open>del v[key]\<close>, giving the changed \<open>v\<close>.\<close>

fun del_item :: "val \<Rightarrow> string \<Rightarrow> error + val" where
  "del_item (VDict m) key =
     (if key \<in> dom m then Inr (VDict (m(key := None))) else Inl (KeyError key))"
| "del_item (VDictObject m) key =
     (if key \<in> dom m then Inr (VDictObject (m(key := None))) else Inl (KeyError key))"
| "del_item _ key = Inl TypeError"

text \<open>\<open>v.update(w)\<close>, giving the changed \<open>v\<close>; entries of \<open>w\<close> replace those of \<open>v\<close>.\<close>

definition update :: "val \<Rightarrow> val \<Rightarrow> error + val" where
  "update v w =
     (case mapping_of v of
        None \<Rightarrow> Inl AttributeError
      | Some m \<Rightarrow>
          (case mapping_of w of
             None \<Rightarrow> Inl TypeError
           | Some n \<Rightarrow> Inr (rewrap v (m ++ n))))"

text \<open>\<open>v.keys()\<close>, as the set of keys.\<close>

definition keys_of :: "val \<Rightarrow> error + string set" where
  "keys_of v = (case mapping_of v of None \<Rightarrow> Inl AttributeError | Some m \<Rightarrow> Inr (dom m))"

text \<open>
  Modelled from the spec: the class \<open>DictObject\<close> of module \<open>dict_object\<close>, which is not
  among the sources. The spec calls it the open-ended-mapping representation: a mapping
  from string keys to values that also answers dotted access. It is taken to behave as a
  mapping under \<open>in\<close>, subscription, deletion, \<open>update\<close>, \<open>keys\<close> and truth value (the
  functions above), and:
  \<^item> \<open>DictObject(value)\<close> coerces a mapping into that representation (a value that is no
    mapping is refused);
  \<^item> \<open>a + b\<close> on a \<open>DictObject a\<close> is the combination of \<open>a\<close> with the optional mapping
    \<open>b\<close>: \<open>a\<close> itself when \<open>b\<close> is \<open>None\<close>, both merged when \<open>b\<close> is a mapping.
\<close>

definition DictObject :: "val \<Rightarrow> error + val" where
  "DictObject v = (case mapping_of v of Some m \<Rightarrow> Inr (VDictObject m) | None \<Rightarrow> Inl TypeError)"

text \<open>
  \<open>a + b\<close>. Integers add and strings concatenate, a plain \<open>dict\<close> has no \<open>+\<close>; the
  \<open>DictObject\<close> cases are the ones modelled from the spec.
\<close>

fun add :: "val \<Rightarrow> val \<Rightarrow> error + val" where
  "add (VDictObject a) VNone = Inr (VDictObject a)"
| "add (VDictObject a) (VDict b) = Inr (VDictObject (a ++ b))"
| "add (VDictObject a) (VDictObject b) = Inr (VDictObject (a ++ b))"
| "add (VInt i) (VInt j) = Inr (VInt (i + j))"
| "add (VStr s) (VStr t) = Inr (VStr (s @ t))"
| "add _ _ = Inl TypeError"

section \<open>Variants and the type registry\<close>

datatype variant = Entity | Project | Folder | File | Analysis | Code | Data | Study | Summary

definition Versionable_property_keys :: "string list" where
  "Versionable_property_keys =
     [''versionNumber'', ''versionLabel'', ''versionComment'', ''versionUrl'', ''versions'']"

definition Entity_property_keys :: "string list" where
  "Entity_property_keys =
     [''id'', ''name'', ''description'', ''parentId'',
      ''entityType'', ''concreteType'',
      ''uri'', ''etag'', ''annotations'', ''accessControlList'',
      ''createdOn'', ''createdBy'', ''modifiedOn'', ''modifiedBy'']"

definition Locationable_property_keys :: "string list" where
  "Locationable_property_keys =
     Versionable_property_keys @ [''locations'', ''md5'', ''contentType'', ''s3Token'']"

text \<open>\<open>cls._property_keys\<close>, a class attribute that a subclass inherits or redefines.\<close>

fun property_keys :: "variant \<Rightarrow> string list" where
  "property_keys File = Entity_property_keys @ Versionable_property_keys @ [''dataFileHandleId'']"
| "property_keys Code = Entity_property_keys @ Locationable_property_keys"
| "property_keys Data = Entity_property_keys @ Locationable_property_keys"
| "property_keys Study = Entity_property_keys @ Locationable_property_keys"
| "property_keys Summary = Entity_property_keys @ Versionable_property_keys"
| "property_keys _ = Entity_property_keys"

text \<open>\<open>cls._synapse_class\<close>.\<close>

fun synapse_class :: "variant \<Rightarrow> string" where
  "synapse_class Entity = ''org.sagebionetworks.repo.model.Entity''"
| "synapse_class Project = ''org.sagebionetworks.repo.model.Project''"
| "synapse_class Folder = ''org.sagebionetworks.repo.model.Folder''"
| "synapse_class File = ''org.sagebionetworks.repo.model.FileEntity''"
| "synapse_class Analysis = ''org.sagebionetworks.repo.model.Analysis''"
| "synapse_class Code = ''org.sagebionetworks.repo.model.Code''"
| "synapse_class Data = ''org.sagebionetworks.repo.model.Data''"
| "synapse_class Study = ''org.sagebionetworks.repo.model.Study''"
| "synapse_class Summary = ''org.sagebionetworks.repo.model.Summary''"

text \<open>
  Modelled from the spec: \<open>itersubclasses\<close> of module \<open>utils\<close>, which is not among the
  sources. The registry is built by enumerating every variant reachable from the base,
  directly or indirectly; the base itself is not a subclass of itself.
\<close>

definition itersubclasses_Entity :: "variant list" where
  "itersubclasses_Entity = [Project, Folder, File, Analysis, Code, Data, Study, Summary]"

text \<open>
  \<open>_entity_type_to_class\<close>: the loop \<open>for cls in itersubclasses(Entity):
  _entity_type_to_class[cls._synapse_class] = cls\<close> over the empty dictionary.
\<close>

definition entity_type_to_class :: "string \<Rightarrow> variant option" where
  "entity_type_to_class =
     fold (\<lambda>c m. m(synapse_class c \<mapsto> c)) itersubclasses_Entity Map.empty"

text \<open>
  \<open>v in _entity_type_to_class\<close>: the dictionary hashes \<open>v\<close>, and a mapping is not
  hashable; no key of the registry is \<open>None\<close> or an integer.
\<close>

fun in_entity_type_to_class :: "val \<Rightarrow> error + bool" where
  "in_entity_type_to_class (VStr s) = Inr (s \<in> dom entity_type_to_class)"
| "in_entity_type_to_class (VDict m) = Inl TypeError"
| "in_entity_type_to_class (VDictObject m) = Inl TypeError"
| "in_entity_type_to_class _ = Inr False"

section \<open>The entity\<close>

text \<open>
  An instance is its class and its \<open>__dict__\<close>. The two containers are themselves entries
  of \<open>__dict__\<close>, under the names \<open>properties\<close> and \<open>annotations\<close>; every other entry
  is internal state that is not persisted.

  Values carry no identity. Where the code stores a reference (\<open>__setitem__\<close> on a field
  of \<open>__dict__\<close>), the entry holds the value: should one dictionary come to stand under
  two names (\<open>entity.annotations = entity.properties\<close>), the code has one object where
  the entity here has two equal values, and a later change through one name shows under
  the other in the code only. Two containers whose contents differ are two objects in the
  code as well; what depends on the containers being two objects is stated for those.
\<close>

record entity =
  cls :: variant
  dict :: "string \<Rightarrow> val option"

text \<open>\<open>__new__\<close>: both containers exist, empty, before any method runs.\<close>

definition new :: "variant \<Rightarrow> entity" where
  "new typ =
     \<lparr>cls = typ,
      dict = [''properties'' \<mapsto> VDictObject Map.empty,
              ''annotations'' \<mapsto> VDictObject Map.empty]\<rparr>"

text \<open>
  The attribute reads \<open>self.properties\<close> and \<open>self.annotations\<close>: the entry of
  \<open>__dict__\<close>. Were the entry missing, the read would fall to \<open>__getattr__\<close> and so to
  \<open>__getitem__\<close>, which first reads \<open>self.properties\<close>: for \<open>properties\<close> that is a
  recursion without end, for another name it ends there only if the properties hold the
  name, and otherwise recurs on the read of \<open>self.annotations\<close>.
\<close>

definition container :: "entity \<Rightarrow> string \<Rightarrow> error + val" where
  "container self name =
     (case dict self name of
        Some v \<Rightarrow> Inr v
      | None \<Rightarrow>
          (case dict self ''properties'' of
             None \<Rightarrow> Inl RuntimeError
           | Some p \<Rightarrow>
               and_then (contains p name)
                 (\<lambda>in_properties. if in_properties then subscript p name else Inl RuntimeError)))"

text \<open>The content of a container that is a mapping.\<close>

definition container_map :: "entity \<Rightarrow> string \<Rightarrow> (string \<Rightarrow> val option) option" where
  "container_map self name = (case dict self name of Some v \<Rightarrow> mapping_of v | None \<Rightarrow> None)"

text \<open>\<open>__setitem__\<close>; \<open>__setattr__\<close> only calls it.\<close>

definition setitem :: "entity \<Rightarrow> string \<Rightarrow> val \<Rightarrow> error + entity" where
  "setitem self key value =
     (if key \<in> dom (dict self) then
        (if key = ''annotations'' \<and> \<not> isinstance_DictObject value then
           and_then (DictObject value)
             (\<lambda>value'. Inr (self\<lparr>dict := (dict self)(key \<mapsto> value')\<rparr>))
         else Inr (self\<lparr>dict := (dict self)(key \<mapsto> value)\<rparr>))
      else if key \<in> set (property_keys (cls self)) then
        and_then (container self ''properties'')
          (\<lambda>p. and_then (store_item p key value)
            (\<lambda>p'. Inr (self\<lparr>dict := (dict self)(''properties'' \<mapsto> p')\<rparr>)))
      else
        and_then (container self ''annotations'')
          (\<lambda>a. and_then (store_item a key value)
            (\<lambda>a'. Inr (self\<lparr>dict := (dict self)(''annotations'' \<mapsto> a')\<rparr>))))"

definition setattr :: "entity \<Rightarrow> string \<Rightarrow> val \<Rightarrow> error + entity" where
  "setattr self key value = setitem self key value"

text \<open>\<open>__getitem__\<close>.\<close>

definition getitem :: "entity \<Rightarrow> string \<Rightarrow> error + val" where
  "getitem self key =
     (case dict self key of
        Some v \<Rightarrow> Inr v
      | None \<Rightarrow>
          and_then (container self ''properties'')
            (\<lambda>p. and_then (contains p key)
              (\<lambda>in_properties.
                 if in_properties then subscript p key
                 else
                   and_then (container self ''annotations'')
                     (\<lambda>a. and_then (contains a key)
                       (\<lambda>in_annotations.
                          if in_annotations then subscript a key
                          else Inl (KeyError key))))))"

text \<open>\<open>__getattr__\<close>, the hook Python calls when the ordinary attribute lookup fails.\<close>

definition getattr :: "entity \<Rightarrow> string \<Rightarrow> error + val" where
  "getattr self key = getitem self key"

text \<open>
  The attribute-style read \<open>entity.key\<close>. Python looks the name up on the instance and
  its class first and calls \<open>__getattr__\<close> only when that fails: a data descriptor of the
  class wins, then an entry of \<open>__dict__\<close>, then any other attribute of the class.
  \<open>class_attributes\<close> are the names the class bodies of this module bind,
  \<open>inherited_attributes\<close> those of the bases \<open>collections.MutableMapping\<close> and \<open>object\<close>.
\<close>

definition data_descriptors :: "string list" where
  "data_descriptors = [''__dict__'', ''__class__'', ''__weakref__'']"

definition class_attributes :: "string list" where
  "class_attributes =
     [''_synapse_class'', ''_property_keys'', ''create'', ''to_entity'',
      ''__new__'', ''__init__'', ''__setattr__'', ''__setitem__'',
      ''__getattr__'', ''__getitem__'', ''__delitem__'', ''__iter__'', ''__len__'',
      ''keys'', ''has_key'', ''__str__'', ''__repr__'', ''__doc__'', ''__module__'']"

definition inherited_attributes :: "string list" where
  "inherited_attributes =
     [''get'', ''items'', ''values'', ''iterkeys'', ''itervalues'', ''iteritems'',
      ''pop'', ''popitem'', ''clear'', ''update'', ''setdefault'',
      ''__contains__'', ''__eq__'', ''__ne__'', ''__hash__'',
      ''__metaclass__'', ''__abstractmethods__'', ''__subclasshook__'',
      ''_abc_registry'', ''_abc_cache'', ''_abc_negative_cache'',
      ''_abc_negative_cache_version'',
      ''__delattr__'', ''__format__'', ''__getattribute__'',
      ''__reduce__'', ''__reduce_ex__'', ''__sizeof__'',
      ''_MutableMapping__marker'']"

definition bound_on_class :: "string \<Rightarrow> bool" where
  "bound_on_class key =
     (key \<in> set data_descriptors \<or> key \<in> set class_attributes \<or>
      key \<in> set inherited_attributes)"

text \<open>What an attribute-style read gives: a value, or the attribute of the class.\<close>

datatype attribute = Value val | ClassAttribute string

definition getattribute :: "entity \<Rightarrow> string \<Rightarrow> error + attribute" where
  "getattribute self key =
     (if key \<in> set data_descriptors then Inr (ClassAttribute key)
      else
        (case dict self key of
           Some v \<Rightarrow> Inr (Value v)
         | None \<Rightarrow>
             if key \<in> set class_attributes \<or> key \<in> set inherited_attributes
             then Inr (ClassAttribute key)
             else and_then (getattr self key) (\<lambda>v. Inr (Value v))))"

text \<open>\<open>__delitem__\<close>.\<close>

definition delitem :: "entity \<Rightarrow> string \<Rightarrow> error + entity" where
  "delitem self key =
     and_then (container self ''properties'')
       (\<lambda>p. and_then (contains p key)
         (\<lambda>in_properties.
            if in_properties then
              and_then (del_item p key)
                (\<lambda>p'. Inr (self\<lparr>dict := (dict self)(''properties'' \<mapsto> p')\<rparr>))
            else
              and_then (container self ''annotations'')
                (\<lambda>a. and_then (contains a key)
                  (\<lambda>in_annotations.
                     if in_annotations then
                       and_then (del_item a key)
                         (\<lambda>a'. Inr (self\<lparr>dict := (dict self)(''annotations'' \<mapsto> a')\<rparr>))
                     else Inr self))))"

text \<open>\<open>keys\<close>: the set of property and annotation keys.\<close>

definition keys :: "entity \<Rightarrow> error + string set" where
  "keys self =
     and_then (container self ''properties'')
       (\<lambda>p. and_then (keys_of p)
         (\<lambda>pk. and_then (container self ''annotations'')
           (\<lambda>a. and_then (keys_of a)
             (\<lambda>ak. Inr (pk \<union> ak)))))"

text \<open>\<open>has_key\<close>: \<open>key in self.properties or key in self.annotations\<close>.\<close>

definition has_key :: "entity \<Rightarrow> string \<Rightarrow> error + bool" where
  "has_key self key =
     and_then (container self ''properties'')
       (\<lambda>p. and_then (contains p key)
         (\<lambda>in_properties.
            if in_properties then Inr True
            else
              and_then (container self ''annotations'')
                (\<lambda>a. contains a key)))"

section \<open>Construction\<close>

text \<open>
  \<open>__init__\<close> changes the dictionaries it is given: it moves a nested \<open>annotations\<close>
  mapping out of \<open>properties\<close> into \<open>annotations\<close>. So each constructor returns, besides
  the instance or the exception, the two arguments as the call leaves them.
\<close>

text \<open>\<open>self.__dict__[name].update(w)\<close>.\<close>

definition update_entry :: "entity \<Rightarrow> string \<Rightarrow> val \<Rightarrow> error + entity" where
  "update_entry self name w =
     (case dict self name of
        None \<Rightarrow> Inl (KeyError name)
      | Some c \<Rightarrow> and_then (update c w) (\<lambda>c'. Inr (self\<lparr>dict := (dict self)(name \<mapsto> c')\<rparr>)))"

text \<open>\<open>Entity.__init__\<close>, the block \<open>if properties:\<close>.\<close>

definition init_properties :: "entity \<Rightarrow> val \<Rightarrow> val \<Rightarrow> (error + entity) \<times> val \<times> val" where
  "init_properties self properties annotations =
     (if truthy properties then
        (case mapping_of properties of
           None \<Rightarrow> (Inl (Exception ''properties''), properties, annotations)
         | Some pm \<Rightarrow>
             if ''annotations'' \<in> dom pm \<and> isinstance_Mapping (the (pm ''annotations'')) then
               (case update annotations (the (pm ''annotations'')) of
                  Inl err \<Rightarrow> (Inl err, properties, annotations)
                | Inr annotations' \<Rightarrow>
                    (let properties' = rewrap properties (pm(''annotations'' := None))
                     in (update_entry self ''properties'' properties', properties', annotations')))
             else (update_entry self ''properties'' properties, properties, annotations))
      else (Inr self, properties, annotations))"

text \<open>\<open>Entity.__init__\<close>, the block \<open>if annotations:\<close>.\<close>

definition init_annotations :: "entity \<Rightarrow> val \<Rightarrow> error + entity" where
  "init_annotations self annotations =
     (if truthy annotations then
        (if isinstance_Mapping annotations then update_entry self ''annotations'' annotations
         else if isinstance_basestring annotations then
           and_then (container self ''properties'')
             (\<lambda>p. and_then (store_item p ''annotations'' annotations)
               (\<lambda>p'. Inr (self\<lparr>dict := (dict self)(''properties'' \<mapsto> p')\<rparr>)))
         else Inl (Exception ''annotations''))
      else Inr self)"

text \<open>
  \<open>Entity.__init__\<close>, the loop over \<open>kwargs.items()\<close>. The keyword arguments are a list
  of pairs with distinct keys, visited in list order.
\<close>

fun init_kwargs :: "entity \<Rightarrow> (string \<times> val) list \<Rightarrow> error + entity" where
  "init_kwargs self [] = Inr self"
| "init_kwargs self ((key, value) # kwargs) =
     and_then (setitem self key value) (\<lambda>self'. init_kwargs self' kwargs)"

text \<open>\<open>Entity.__init__\<close>.\<close>

definition init :: "entity \<Rightarrow> val \<Rightarrow> val \<Rightarrow> (string \<times> val) list \<Rightarrow> (error + entity) \<times> val \<times> val" where
  "init self properties annotations kwargs =
     (case init_properties self properties annotations of
        (Inl err, properties', annotations') \<Rightarrow> (Inl err, properties', annotations')
      | (Inr self1, properties', annotations') \<Rightarrow>
          (and_then (init_annotations self1 annotations') (\<lambda>self2. init_kwargs self2 kwargs),
           properties', annotations'))"

text \<open>
  Modelled from the spec: \<open>id_of\<close> of module \<open>utils\<close>, which is not among the sources. The
  parent reference helper accepts a raw identifier string or an object exposing an
  identifier field and resolves to the identifier.
\<close>

definition id_of :: "val \<Rightarrow> error + val" where
  "id_of obj =
     (if isinstance_basestring obj then Inr obj
      else
        (case mapping_of obj of
           Some m \<Rightarrow> (case m ''id'' of Some i \<Rightarrow> Inr i | None \<Rightarrow> Inl (Exception ''id_of''))
         | None \<Rightarrow> Inl (Exception ''id_of'')))"

text \<open>\<open>os.path.basename\<close>: what follows the last slash.\<close>

definition basename :: "val \<Rightarrow> error + val" where
  "basename path =
     (case path of
        VStr s \<Rightarrow> Inr (VStr (rev (takeWhile (\<lambda>c. c \<noteq> CHR ''/'') (rev s))))
      | _ \<Rightarrow> Inl AttributeError)"

text \<open>
  The call \<open>super(..).__init__(entityType=t, properties=.., annotations=.., **kwargs)\<close>:
  Python refuses a keyword given twice.
\<close>

definition super_init :: "entity \<Rightarrow> string \<Rightarrow> val \<Rightarrow> val \<Rightarrow> (string \<times> val) list \<Rightarrow> (error + entity) \<times> val \<times> val" where
  "super_init self t properties annotations kwargs =
     (if ''entityType'' \<in> fst ` set kwargs then (Inl TypeError, properties, annotations)
      else init self properties annotations ((''entityType'', VStr t) # kwargs))"

text \<open>\<open>Project.__init__\<close>.\<close>

definition Project_init :: "entity \<Rightarrow> val \<Rightarrow> val \<Rightarrow> val \<Rightarrow> (string \<times> val) list \<Rightarrow> (error + entity) \<times> val \<times> val" where
  "Project_init self name properties annotations kwargs =
     (let kwargs1 = (if truthy name then AList.update ''name'' name kwargs else kwargs)
      in super_init self (synapse_class Project) properties annotations kwargs1)"

text \<open>\<open>Folder.__init__\<close>.\<close>

definition Folder_init :: "entity \<Rightarrow> val \<Rightarrow> val \<Rightarrow> val \<Rightarrow> val \<Rightarrow> (string \<times> val) list \<Rightarrow> (error + entity) \<times> val \<times> val" where
  "Folder_init self name parent properties annotations kwargs =
     (let kwargs1 = (if truthy name then AList.update ''name'' name kwargs else kwargs)
      in case (if truthy parent
               then and_then (id_of parent) (\<lambda>i. Inr (AList.update ''parentId'' i kwargs1))
               else Inr kwargs1) of
           Inl err \<Rightarrow> (Inl err, properties, annotations)
         | Inr kwargs2 \<Rightarrow> super_init self (synapse_class Folder) properties annotations kwargs2)"

text \<open>
  \<open>File.__init__\<close>. The flag \<open>synapseStore\<close> is accepted and not used; \<open>path\<close> becomes
  internal state once the base constructor has returned.
\<close>

definition File_init :: "entity \<Rightarrow> val \<Rightarrow> val \<Rightarrow> bool \<Rightarrow> val \<Rightarrow> val \<Rightarrow> (string \<times> val) list \<Rightarrow> (error + entity) \<times> val \<times> val" where
  "File_init self path parent synapseStore properties annotations kwargs =
     (case (if truthy path \<and> ''name'' \<notin> fst ` set kwargs
            then and_then (basename path) (\<lambda>n. Inr (AList.update ''name'' n kwargs))
            else Inr kwargs) of
        Inl err \<Rightarrow> (Inl err, properties, annotations)
      | Inr kwargs1 \<Rightarrow>
          (case (if truthy parent
                 then and_then (id_of parent) (\<lambda>i. Inr (AList.update ''parentId'' i kwargs1))
                 else Inr kwargs1) of
             Inl err \<Rightarrow> (Inl err, properties, annotations)
           | Inr kwargs2 \<Rightarrow>
               (case super_init self (synapse_class File) properties annotations kwargs2 of
                  (Inl err, properties', annotations') \<Rightarrow> (Inl err, properties', annotations')
                | (Inr self', properties', annotations') \<Rightarrow>
                    (Inr (self'\<lparr>dict := (dict self')(''path'' \<mapsto> path)\<rparr>),
                     properties', annotations'))))"

text \<open>
  The call \<open>cls(properties=properties, annotations=annotations)\<close>: \<open>__new__\<close>, then the
  \<open>__init__\<close> of the class with every other parameter at its default. \<open>Analysis\<close>,
  \<open>Code\<close>, \<open>Data\<close>, \<open>Study\<close> and \<open>Summary\<close> define no \<open>__init__\<close> and run the base one.
\<close>

definition construct :: "variant \<Rightarrow> val \<Rightarrow> val \<Rightarrow> (error + entity) \<times> val \<times> val" where
  "construct c properties annotations =
     (case c of
        Project \<Rightarrow> Project_init (new c) VNone properties annotations []
      | Folder \<Rightarrow> Folder_init (new c) VNone VNone properties annotations []
      | File \<Rightarrow> File_init (new c) VNone VNone True properties annotations []
      | _ \<Rightarrow> init (new c) properties annotations [])"

text \<open>\<open>_entity_type_to_class[v]\<close>.\<close>

fun lookup_entity_type_to_class :: "val \<Rightarrow> error + variant" where
  "lookup_entity_type_to_class (VStr s) =
     (case entity_type_to_class s of Some c \<Rightarrow> Inr c | None \<Rightarrow> Inl (KeyError s))"
| "lookup_entity_type_to_class (VDict m) = Inl TypeError"
| "lookup_entity_type_to_class (VDictObject m) = Inl TypeError"
| "lookup_entity_type_to_class _ = Inl (KeyError [])"

text \<open>
  \<open>create\<close>, the class it constructs: \<open>if cls==Entity and 'entityType' in properties and
  properties['entityType'] in _entity_type_to_class: cls = ...\<close>.
\<close>

definition create_class :: "variant \<Rightarrow> val \<Rightarrow> error + variant" where
  "create_class c properties =
     (if c = Entity then
        and_then (contains properties ''entityType'')
          (\<lambda>has_type.
             if has_type then
               and_then (subscript properties ''entityType'')
                 (\<lambda>t. and_then (in_entity_type_to_class t)
                   (\<lambda>registered. if registered then lookup_entity_type_to_class t else Inr c))
             else Inr c)
      else Inr c)"

text \<open>\<open>create\<close> from the dispatch on: the class is chosen, then constructed.\<close>

definition create_from :: "variant \<Rightarrow> val \<Rightarrow> val \<Rightarrow> (error + entity) \<times> val \<times> val" where
  "create_from c properties annotations =
     (case create_class c properties of
        Inl err \<Rightarrow> (Inl err, properties, annotations)
      | Inr c' \<Rightarrow> construct c' properties annotations)"

text \<open>
  The \<open>properties\<close> argument of \<open>create\<close> and the argument of \<open>to_entity\<close>: an
  \<open>Entity\<close>, or any other value.
\<close>

datatype arg = AEntity entity | AVal val

text \<open>
  \<open>create\<close>. Given an \<open>Entity\<close>, \<open>properties\<close> becomes that entity's own properties
  container, so what \<open>del properties['id']\<close> and \<open>__init__\<close> do to it is done to the
  prototype. The result comes with the \<open>properties\<close> and \<open>annotations\<close> arguments as
  the call leaves them.
\<close>

definition create :: "variant \<Rightarrow> arg \<Rightarrow> val \<Rightarrow> (error + entity) \<times> arg \<times> val" where
  "create c properties annotations =
     (case properties of
        AEntity e \<Rightarrow>
          (case and_then (container e ''annotations'') (\<lambda>ea. add ea annotations) of
             Inl err \<Rightarrow> (Inl err, properties, annotations)
           | Inr annotations1 \<Rightarrow>
               (case container e ''properties'' of
                  Inl err \<Rightarrow> (Inl err, properties, annotations)
                | Inr props \<Rightarrow>
                    (case del_item props ''id'' of
                       Inl err \<Rightarrow> (Inl err, properties, annotations)
                     | Inr props1 \<Rightarrow>
                         (case create_from c props1 annotations1 of
                            (r, props2, annotations2) \<Rightarrow>
                              (r, AEntity (e\<lparr>dict := (dict e)(''properties'' \<mapsto> props2)\<rparr>),
                               annotations)))))
      | AVal v \<Rightarrow>
          (case create_from c v annotations of
             (r, v', annotations') \<Rightarrow> (r, AVal v', annotations')))"

text \<open>\<open>to_entity\<close>, with its argument as the call leaves it.\<close>

definition to_entity :: "variant \<Rightarrow> arg \<Rightarrow> (error + entity) \<times> arg" where
  "to_entity c entity =
     (case entity of
        AEntity e \<Rightarrow> (Inr e, entity)
      | AVal v \<Rightarrow> (case create Entity entity VNone of (r, entity', annotations') \<Rightarrow> (r, entity')))"

section \<open>Example entities\<close>

text \<open>\<open>File(path='/tmp/data.csv')\<close>.\<close>

definition example_file :: entity where
  "example_file =
     \<lparr>cls = File,
      dict = [''properties'' \<mapsto>
                VDictObject [''entityType'' \<mapsto> VStr ''org.sagebionetworks.repo.model.FileEntity'',
                             ''name'' \<mapsto> VStr ''data.csv''],
              ''annotations'' \<mapsto> VDictObject Map.empty,
              ''path'' \<mapsto> VStr ''/tmp/data.csv'']\<rparr>"

text \<open>\<open>Project(name='MyProj')\<close> after \<open>entity.foo = 'bar'\<close>.\<close>

definition example_project :: entity where
  "example_project =
     \<lparr>cls = Project,
      dict = [''properties'' \<mapsto>
                VDictObject [''entityType'' \<mapsto> VStr ''org.sagebionetworks.repo.model.Project'',
                             ''name'' \<mapsto> VStr ''MyProj''],
              ''annotations'' \<mapsto> VDictObject [''foo'' \<mapsto> VStr ''bar'']]\<rparr>"

text \<open>A fresh \<open>Entity\<close> after \<open>entity['keys'] = 5\<close>.\<close>

definition keys_annotated :: entity where
  "keys_annotated =
     \<lparr>cls = Entity,
      dict = [''properties'' \<mapsto> VDictObject Map.empty,
              ''annotations'' \<mapsto> VDictObject [''keys'' \<mapsto> VInt 5]]\<rparr>"




text \<open>A Folder with an identifier, a name and one annotation.\<close>

definition folder_prototype :: entity where
  "folder_prototype =
     \<lparr>cls = Folder,
      dict = [''properties'' \<mapsto>
                VDictObject [''id'' \<mapsto> VStr ''syn123'',
                             ''name'' \<mapsto> VStr ''x'',
                             ''entityType'' \<mapsto> VStr ''org.sagebionetworks.repo.model.Folder''],
              ''annotations'' \<mapsto> VDictObject [''foo'' \<mapsto> VStr ''bar'']]\<rparr>"

text \<open>A base \<open>Entity\<close> with an identifier and a name, and what \<open>Folder.create\<close> makes of it.\<close>

definition plain_prototype :: entity where
  "plain_prototype =
     \<lparr>cls = Entity,
      dict = [''properties'' \<mapsto>
                VDictObject [''id'' \<mapsto> VStr ''syn123'', ''name'' \<mapsto> VStr ''x''],
              ''annotations'' \<mapsto> VDictObject Map.empty]\<rparr>"

definition folder_clone :: entity where
  "folder_clone =
     \<lparr>cls = Folder,
      dict = [''properties'' \<mapsto>
                VDictObject [''name'' \<mapsto> VStr ''x'',
                             ''entityType'' \<mapsto> VStr ''org.sagebionetworks.repo.model.Folder''],
              ''annotations'' \<mapsto> VDictObject Map.empty]\<rparr>"

text \<open>
  A base \<open>Entity\<close> whose properties hold a mapping under \<open>annotations\<close> (written there
  with \<open>entity.properties['annotations'] = {'a': 1}\<close>), and what \<open>Entity.create\<close> makes
  of it.
\<close>

definition nested_prototype :: entity where
  "nested_prototype =
     \<lparr>cls = Entity,
      dict = [''properties'' \<mapsto>
                VDictObject [''id'' \<mapsto> VStr ''syn123'',
                             ''annotations'' \<mapsto> VDict [''a'' \<mapsto> VInt 1]],
              ''annotations'' \<mapsto> VDictObject Map.empty]\<rparr>"

definition nested_clone :: entity where
  "nested_clone =
     \<lparr>cls = Entity,
      dict = [''properties'' \<mapsto> VDictObject Map.empty,
              ''annotations'' \<mapsto> VDictObject [''a'' \<mapsto> VInt 1]]\<rparr>"

text \<open>
  Raw payloads: the Folder payload of the variant dispatch, a payload with a nested
  \<open>annotations\<close> mapping, and the Folder payload with such a mapping.
\<close>

definition folder_payload :: val where
  "folder_payload =
     VDict [''entityType'' \<mapsto> VStr ''org.sagebionetworks.repo.model.Folder'',
            ''name'' \<mapsto> VStr ''x'',
            ''parentId'' \<mapsto> VStr ''syn1'']"

definition annotated_payload :: val where
  "annotated_payload =
     VDict [''name'' \<mapsto> VStr ''x'',
            ''annotations'' \<mapsto> VDict [''foo'' \<mapsto> VStr ''bar'']]"

definition annotated_folder_payload :: val where
  "annotated_folder_payload =
     VDict [''entityType'' \<mapsto> VStr ''org.sagebionetworks.repo.model.Folder'',
            ''name'' \<mapsto> VStr ''x'',
            ''parentId'' \<mapsto> VStr ''syn1'',
            ''annotations'' \<mapsto> VDict [''foo'' \<mapsto> VStr ''bar'']]"

section \<open>Mappings under the built-in operations\<close>

lemma contains_mapping: "mapping_of v = Some m \<Longrightarrow> contains v k = Inr (k \<in> dom m)"
  by (cases v) auto

lemma subscript_mapping:
  "mapping_of v = Some m \<Longrightarrow>
   subscript v k = (case m k of Some x \<Rightarrow> Inr x | None \<Rightarrow> Inl (KeyError k))"
  by (cases v) auto

lemma store_item_mapping:
  "mapping_of v = Some m \<Longrightarrow> store_item v k x = Inr (rewrap v (m(k \<mapsto> x)))"
  by (cases v) auto

lemma del_item_mapping:
  "mapping_of v = Some m \<Longrightarrow>
   del_item v k = (if k \<in> dom m then Inr (rewrap v (m(k := None))) else Inl (KeyError k))"
  by (cases v) auto

lemma keys_of_mapping: "mapping_of v = Some m \<Longrightarrow> keys_of v = Inr (dom m)"
  by (simp add: keys_of_def)

lemma mapping_of_rewrap: "mapping_of (rewrap v m) = Some m"
  by (cases v) auto

lemma truthy_rewrap: "truthy (rewrap v m) = (m \<noteq> Map.empty)"
  by (cases v) auto

lemma rewrap_same: "mapping_of v = Some m \<Longrightarrow> rewrap v m = v"
  by (cases v) auto

lemma truthy_mapping: "mapping_of v = Some m \<Longrightarrow> truthy v = (m \<noteq> Map.empty)"
  by (cases v) auto

lemma container_mapD:
  "container_map e name = Some m \<Longrightarrow> \<exists>v. dict e name = Some v \<and> mapping_of v = Some m"
  by (auto simp: container_map_def split: option.splits)

text \<open>The example project is what the constructor and one assignment make.\<close>

lemma example_project_made:
  "and_then (fst (Project_init (new Project) (VStr ''MyProj'') VNone VNone []))
     (\<lambda>e. setattr e ''foo'' (VStr ''bar'')) = Inr example_project"
  by (simp add: Project_init_def super_init_def init_def init_properties_def
      init_annotations_def setattr_def setitem_def new_def container_def and_then_def
      Entity_property_keys_def example_project_def fun_upd_twist)

section \<open>Reading, membership and deletion\<close>

lemma getitem_mapping:
  assumes "container_map e ''properties'' = Some p"
      and "container_map e ''annotations'' = Some a"
  shows "getitem e k =
     (case dict e k of Some v \<Rightarrow> Inr v
      | None \<Rightarrow> (case p k of Some v \<Rightarrow> Inr v
         | None \<Rightarrow> (case a k of Some v \<Rightarrow> Inr v | None \<Rightarrow> Inl (KeyError k))))"
proof -
  obtain pv av where pv: "dict e ''properties'' = Some pv" "mapping_of pv = Some p"
    and av: "dict e ''annotations'' = Some av" "mapping_of av = Some a"
    using assms by (blast dest: container_mapD)
  show ?thesis
    by (auto simp: getitem_def container_def and_then_def pv av
        contains_mapping [OF pv(2)] contains_mapping [OF av(2)]
        subscript_mapping [OF pv(2)] subscript_mapping [OF av(2)]
        split: option.splits)
qed

lemma has_key_mapping:
  assumes "container_map e ''properties'' = Some p"
      and "container_map e ''annotations'' = Some a"
  shows "has_key e k = Inr (k \<in> dom p \<union> dom a)"
proof -
  obtain pv av where pv: "dict e ''properties'' = Some pv" "mapping_of pv = Some p"
    and av: "dict e ''annotations'' = Some av" "mapping_of av = Some a"
    using assms by (blast dest: container_mapD)
  show ?thesis
    by (auto simp: has_key_def container_def and_then_def pv av
        contains_mapping [OF pv(2)] contains_mapping [OF av(2)])
qed

lemma keys_mapping:
  assumes "container_map e ''properties'' = Some p"
      and "container_map e ''annotations'' = Some a"
  shows "keys e = Inr (dom p \<union> dom a)"
proof -
  obtain pv av where pv: "dict e ''properties'' = Some pv" "mapping_of pv = Some p"
    and av: "dict e ''annotations'' = Some av" "mapping_of av = Some a"
    using assms by (blast dest: container_mapD)
  show ?thesis
    by (simp add: keys_def container_def and_then_def pv av
        keys_of_mapping [OF pv(2)] keys_of_mapping [OF av(2)])
qed

lemma delitem_mapping:
  assumes pv: "dict e ''properties'' = Some pv" "mapping_of pv = Some p"
      and av: "dict e ''annotations'' = Some av" "mapping_of av = Some a"
  shows "delitem e k =
     Inr (if k \<in> dom p then e\<lparr>dict := (dict e)(''properties'' \<mapsto> rewrap pv (p(k := None)))\<rparr>
          else if k \<in> dom a then e\<lparr>dict := (dict e)(''annotations'' \<mapsto> rewrap av (a(k := None)))\<rparr>
          else e)"
  by (simp add: delitem_def container_def and_then_def pv av
      contains_mapping [OF pv(2)] contains_mapping [OF av(2)]
      del_item_mapping [OF pv(2)] del_item_mapping [OF av(2)])

text \<open>
  C5. For every entity whose two containers are mappings, \<open>has_key\<close> answers true
  exactly for the keys of the union of the properties keys and the annotations keys, and
  \<open>keys\<close> enumerates exactly that union. Internal state does not enter either: a field
  that is only in \<open>__dict__\<close> (a File's \<open>path\<close>) and an unknown key both get false.
\<close>

theorem membership_and_enumeration:
  assumes "container_map e ''properties'' = Some p"
      and "container_map e ''annotations'' = Some a"
  shows "has_key e k = Inr (k \<in> dom p \<union> dom a) \<and> keys e = Inr (dom p \<union> dom a)"
  using has_key_mapping [OF assms] keys_mapping [OF assms] by simp

theorem membership_and_enumeration_witness:
  "fst (File_init (new File) (VStr ''/tmp/data.csv'') VNone True VNone VNone []) = Inr example_file \<and>
   dict example_file ''path'' = Some (VStr ''/tmp/data.csv'') \<and>
   has_key example_file ''path'' = Inr False \<and>
   has_key example_file ''name'' = Inr True \<and>
   has_key example_file ''unknown'' = Inr False \<and>
   keys example_file = Inr {''entityType'', ''name''}"
proof -
  let ?p = "[''entityType'' \<mapsto> VStr ''org.sagebionetworks.repo.model.FileEntity'',
             ''name'' \<mapsto> VStr ''data.csv'']"
  have p: "container_map example_file ''properties'' = Some ?p"
    by (simp add: example_file_def container_map_def)
  have a: "container_map example_file ''annotations'' = Some Map.empty"
    by (simp add: example_file_def container_map_def)
  have made: "fst (File_init (new File) (VStr ''/tmp/data.csv'') VNone True VNone VNone [])
      = Inr example_file"
    by (simp add: File_init_def basename_def super_init_def init_def init_properties_def
      init_annotations_def setitem_def new_def container_def and_then_def
      Entity_property_keys_def Versionable_property_keys_def example_file_def fun_upd_twist)
  have path: "dict example_file ''path'' = Some (VStr ''/tmp/data.csv'')"
    by (simp add: example_file_def)
  show ?thesis
    using membership_and_enumeration [OF p a, of "''path''"]
      membership_and_enumeration [OF p a, of "''name''"]
      membership_and_enumeration [OF p a, of "''unknown''"]
      made path
    by auto
qed

text \<open>
  C8. For every entity whose two containers are mappings and every key \<open>k\<close>, deletion
  raises nothing. It removes \<open>k\<close> from the properties when they hold it, otherwise from
  the annotations when they hold it, and changes nothing at all when neither holds it.
  No entry of \<open>__dict__\<close> is removed: its names stay the same, and every field other than
  the two containers keeps its value.
\<close>

theorem delitem_one_container:
  assumes "container_map e ''properties'' = Some p"
      and "container_map e ''annotations'' = Some a"
  shows "\<exists>e'. delitem e k = Inr e' \<and> cls e' = cls e \<and> dom (dict e') = dom (dict e) \<and>
           (\<forall>f. f \<noteq> ''properties'' \<and> f \<noteq> ''annotations'' \<longrightarrow> dict e' f = dict e f) \<and>
           container_map e' ''properties'' = Some (p(k := None)) \<and>
           container_map e' ''annotations'' = Some (if k \<in> dom p then a else a(k := None)) \<and>
           (k \<notin> dom p \<and> k \<notin> dom a \<longrightarrow> e' = e)"
proof -
  obtain pv av where pv: "dict e ''properties'' = Some pv" "mapping_of pv = Some p"
    and av: "dict e ''annotations'' = Some av" "mapping_of av = Some a"
    using assms by (blast dest: container_mapD)
  have absent: "k \<notin> dom m \<Longrightarrow> m(k := None) = m" for m :: "string \<Rightarrow> val option"
    by (auto simp: fun_eq_iff)
  show ?thesis
    unfolding delitem_mapping [OF pv av]
    using pv av assms
    by (auto simp: container_map_def mapping_of_rewrap absent)
qed

theorem delitem_one_container_witness:
  "container_map example_project ''annotations'' = Some [''foo'' \<mapsto> VStr ''bar''] \<and>
   (\<exists>e'. delitem example_project ''foo'' = Inr e' \<and>
      dom (dict e') = {''properties'', ''annotations''} \<and>
      container_map e' ''properties'' = container_map example_project ''properties'' \<and>
      container_map e' ''annotations'' = Some Map.empty) \<and>
   delitem example_project ''missing'' = Inr example_project"
proof -
  let ?p = "[''entityType'' \<mapsto> VStr ''org.sagebionetworks.repo.model.Project'',
             ''name'' \<mapsto> VStr ''MyProj'']"
  have p: "container_map example_project ''properties'' = Some ?p"
    by (simp add: example_project_def container_map_def)
  have a: "container_map example_project ''annotations'' = Some [''foo'' \<mapsto> VStr ''bar'']"
    by (simp add: example_project_def container_map_def)
  have d: "dom (dict example_project) = {''properties'', ''annotations''}"
    by (auto simp: example_project_def)
  show ?thesis
    using delitem_one_container [OF p a, of "''foo''"]
      delitem_one_container [OF p a, of "''missing''"] p a d
    by auto
qed




section \<open>Attribute-style and mapping-style reads\<close>

text \<open>
  C1, as the code has it. For every entity whose two containers are mappings and every
  key \<open>k\<close>, the mapping-style read returns the first value found in internal state, then
  the properties, then the annotations, and fails with \<open>KeyError\<close> when none has \<open>k\<close>;
  \<open>__getattr__\<close> is that same read. The attribute-style read \<open>entity.k\<close> gives the same
  result unless \<open>k\<close> is a data descriptor of the class, or is bound on the class and absent
  from internal state: then it returns the attribute of the class and consults neither
  container.
\<close>

theorem read_resolution:
  assumes "container_map e ''properties'' = Some p"
      and "container_map e ''annotations'' = Some a"
  shows "getitem e k =
           (case dict e k of Some v \<Rightarrow> Inr v
            | None \<Rightarrow> (case p k of Some v \<Rightarrow> Inr v
               | None \<Rightarrow> (case a k of Some v \<Rightarrow> Inr v | None \<Rightarrow> Inl (KeyError k)))) \<and>
         getattr e k = getitem e k \<and>
         getattribute e k =
           (if k \<in> set data_descriptors \<or> (k \<notin> dom (dict e) \<and> bound_on_class k)
            then Inr (ClassAttribute k)
            else and_then (getitem e k) (\<lambda>v. Inr (Value v)))"
proof -
  have "getattribute e k =
           (if k \<in> set data_descriptors \<or> (k \<notin> dom (dict e) \<and> bound_on_class k)
            then Inr (ClassAttribute k)
            else and_then (getitem e k) (\<lambda>v. Inr (Value v)))"
    by (auto simp: getattribute_def getattr_def bound_on_class_def getitem_def and_then_def
        split: option.splits)
  then show ?thesis
    using getitem_mapping [OF assms, of k] by (simp add: getattr_def)
qed

theorem read_resolution_witness:
  "getitem example_file ''path'' = Inr (VStr ''/tmp/data.csv'') \<and>
   getitem example_file ''name'' = Inr (VStr ''data.csv'') \<and>
   getitem example_project ''foo'' = Inr (VStr ''bar'') \<and>
   getitem example_project ''missing'' = Inl (KeyError ''missing'') \<and>
   getattribute example_project ''foo'' = Inr (Value (VStr ''bar'')) \<and>
   getattribute example_project ''missing'' = Inl (KeyError ''missing'') \<and>
   getattribute example_project ''has_key'' = Inr (ClassAttribute ''has_key'')"
proof -
  let ?fp = "[''entityType'' \<mapsto> VStr ''org.sagebionetworks.repo.model.FileEntity'',
             ''name'' \<mapsto> VStr ''data.csv'']"
  let ?pp = "[''entityType'' \<mapsto> VStr ''org.sagebionetworks.repo.model.Project'',
             ''name'' \<mapsto> VStr ''MyProj'']"
  have fp: "container_map example_file ''properties'' = Some ?fp"
    by (simp add: example_file_def container_map_def)
  have fa: "container_map example_file ''annotations'' = Some Map.empty"
    by (simp add: example_file_def container_map_def)
  have pp: "container_map example_project ''properties'' = Some ?pp"
    by (simp add: example_project_def container_map_def)
  have pa: "container_map example_project ''annotations'' = Some [''foo'' \<mapsto> VStr ''bar'']"
    by (simp add: example_project_def container_map_def)
  have 1: "getitem example_file ''path'' = Inr (VStr ''/tmp/data.csv'')"
    using read_resolution [OF fp fa, of "''path''"] by (simp add: example_file_def)
  have 2: "getitem example_file ''name'' = Inr (VStr ''data.csv'')"
    using read_resolution [OF fp fa, of "''name''"] by (simp add: example_file_def)
  have 3: "getitem example_project ''foo'' = Inr (VStr ''bar'') \<and>
           getattribute example_project ''foo'' = Inr (Value (VStr ''bar''))"
    using read_resolution [OF pp pa, of "''foo''"]
    by (simp add: example_project_def and_then_def data_descriptors_def bound_on_class_def
        class_attributes_def inherited_attributes_def)
  have 4: "getitem example_project ''missing'' = Inl (KeyError ''missing'') \<and>
           getattribute example_project ''missing'' = Inl (KeyError ''missing'')"
    using read_resolution [OF pp pa, of "''missing''"]
    by (simp add: example_project_def and_then_def data_descriptors_def bound_on_class_def
        class_attributes_def inherited_attributes_def)
  have 5: "getattribute example_project ''has_key'' = Inr (ClassAttribute ''has_key'')"
    using read_resolution [OF pp pa, of "''has_key''"]
    by (simp add: example_project_def and_then_def data_descriptors_def bound_on_class_def
        class_attributes_def inherited_attributes_def)
  show ?thesis using 1 2 3 4 5 by simp
qed

text \<open>
  C1 as stated fails on a key that the class binds: with an annotation named \<open>keys\<close>,
  \<open>entity['keys']\<close> returns the annotation and \<open>entity.keys\<close> the method.
\<close>

theorem notations_differ_counterexample:
  "setitem (new Entity) ''keys'' (VInt 5) = Inr keys_annotated \<and>
   getitem keys_annotated ''keys'' = Inr (VInt 5) \<and>
   getattribute keys_annotated ''keys'' = Inr (ClassAttribute ''keys'')"
  by (simp add: setitem_def new_def keys_annotated_def Entity_property_keys_def
      container_def and_then_def getitem_def getattribute_def data_descriptors_def
      class_attributes_def)

section \<open>Assignment\<close>

lemma setitem_mapping:
  assumes pv: "dict e ''properties'' = Some pv" "mapping_of pv = Some p"
      and av: "dict e ''annotations'' = Some av" "mapping_of av = Some a"
  shows "setitem e k v =
     (if k \<in> dom (dict e) then
        (if k = ''annotations'' \<and> \<not> isinstance_DictObject v then
           and_then (DictObject v) (\<lambda>v'. Inr (e\<lparr>dict := (dict e)(k \<mapsto> v')\<rparr>))
         else Inr (e\<lparr>dict := (dict e)(k \<mapsto> v)\<rparr>))
      else if k \<in> set (property_keys (cls e)) then
        Inr (e\<lparr>dict := (dict e)(''properties'' \<mapsto> rewrap pv (p(k \<mapsto> v)))\<rparr>)
      else Inr (e\<lparr>dict := (dict e)(''annotations'' \<mapsto> rewrap av (a(k \<mapsto> v)))\<rparr>))"
  by (simp add: setitem_def container_def and_then_def pv av
      store_item_mapping [OF pv(2)] store_item_mapping [OF av(2)])

lemma DictObject_mapping: "mapping_of v = Some m \<Longrightarrow> DictObject v = Inr (VDictObject m)"
  by (simp add: DictObject_def)

lemma DictObject_idem: "isinstance_DictObject v \<Longrightarrow> mapping_of v = Some m \<Longrightarrow> v = VDictObject m"
  by (cases v) auto

text \<open>
  C2. For every entity whose two containers are mappings, every key \<open>k\<close> and value \<open>v\<close>:
  an existing field of internal state other than \<open>annotations\<close> is overwritten with \<open>v\<close>;
  the field \<open>annotations\<close> is overwritten with the \<open>DictObject\<close> of \<open>v\<close> when \<open>v\<close> is a
  mapping; a key that is no field of internal state and is a declared property key of the
  variant is written into the properties; any other key is written into the annotations.
  No assignment adds a field to internal state, and \<open>__setattr__\<close> is \<open>__setitem__\<close>.
\<close>

theorem assignment_routing:
  assumes "container_map e ''properties'' = Some p"
      and "container_map e ''annotations'' = Some a"
  shows "(k \<in> dom (dict e) \<and> k \<noteq> ''annotations'' \<longrightarrow>
            setitem e k v = Inr (e\<lparr>dict := (dict e)(k \<mapsto> v)\<rparr>)) \<and>
         (\<forall>m. mapping_of v = Some m \<longrightarrow>
            setitem e ''annotations'' v =
              Inr (e\<lparr>dict := (dict e)(''annotations'' \<mapsto> VDictObject m)\<rparr>)) \<and>
         (k \<notin> dom (dict e) \<and> k \<in> set (property_keys (cls e)) \<longrightarrow>
            (\<exists>e'. setitem e k v = Inr e' \<and> cls e' = cls e \<and>
               container_map e' ''properties'' = Some (p(k \<mapsto> v)) \<and>
               (\<forall>f. f \<noteq> ''properties'' \<longrightarrow> dict e' f = dict e f))) \<and>
         (k \<notin> dom (dict e) \<and> k \<notin> set (property_keys (cls e)) \<longrightarrow>
            (\<exists>e'. setitem e k v = Inr e' \<and> cls e' = cls e \<and>
               container_map e' ''annotations'' = Some (a(k \<mapsto> v)) \<and>
               (\<forall>f. f \<noteq> ''annotations'' \<longrightarrow> dict e' f = dict e f))) \<and>
         (\<forall>e'. setitem e k v = Inr e' \<longrightarrow> dom (dict e') = dom (dict e)) \<and>
         setattr e k v = setitem e k v"
proof -
  obtain pv av where pv: "dict e ''properties'' = Some pv" "mapping_of pv = Some p"
    and av: "dict e ''annotations'' = Some av" "mapping_of av = Some a"
    using assms by (blast dest: container_mapD)
  note eq = setitem_mapping [OF pv av, of k v]
  have 1: "k \<in> dom (dict e) \<and> k \<noteq> ''annotations'' \<longrightarrow>
            setitem e k v = Inr (e\<lparr>dict := (dict e)(k \<mapsto> v)\<rparr>)"
    using eq by simp
  have 2: "\<forall>m. mapping_of v = Some m \<longrightarrow>
            setitem e ''annotations'' v =
              Inr (e\<lparr>dict := (dict e)(''annotations'' \<mapsto> VDictObject m)\<rparr>)"
    using setitem_mapping [OF pv av, of "''annotations''" v] av
    by (auto simp: DictObject_mapping and_then_def dest: DictObject_idem)
  have 3: "k \<notin> dom (dict e) \<and> k \<in> set (property_keys (cls e)) \<longrightarrow>
            (\<exists>e'. setitem e k v = Inr e' \<and> cls e' = cls e \<and>
               container_map e' ''properties'' = Some (p(k \<mapsto> v)) \<and>
               (\<forall>f. f \<noteq> ''properties'' \<longrightarrow> dict e' f = dict e f))"
    using eq pv by (auto simp: container_map_def mapping_of_rewrap)
  have 4: "k \<notin> dom (dict e) \<and> k \<notin> set (property_keys (cls e)) \<longrightarrow>
            (\<exists>e'. setitem e k v = Inr e' \<and> cls e' = cls e \<and>
               container_map e' ''annotations'' = Some (a(k \<mapsto> v)) \<and>
               (\<forall>f. f \<noteq> ''annotations'' \<longrightarrow> dict e' f = dict e f))"
    using eq av by (auto simp: container_map_def mapping_of_rewrap)
  have 5: "\<forall>e'. setitem e k v = Inr e' \<longrightarrow> dom (dict e') = dom (dict e)"
    using eq pv av by (auto simp: and_then_def split: if_splits sum.splits)
  show ?thesis using 1 2 3 4 5 by (simp add: setattr_def)
qed

theorem assignment_routing_witness:
  "(\<exists>e'. setitem example_project ''description'' (VStr ''d'') = Inr e' \<and>
      cls e' = Project \<and>
      container_map e' ''properties'' =
        Some ([''entityType'' \<mapsto> VStr ''org.sagebionetworks.repo.model.Project'',
               ''name'' \<mapsto> VStr ''MyProj'', ''description'' \<mapsto> VStr ''d'']) \<and>
      dict e' ''annotations'' = dict example_project ''annotations'') \<and>
   (\<exists>e'. setattr example_project ''tissue'' (VStr ''liver'') = Inr e' \<and>
      container_map e' ''annotations'' =
        Some ([''foo'' \<mapsto> VStr ''bar'', ''tissue'' \<mapsto> VStr ''liver'']) \<and>
      dict e' ''properties'' = dict example_project ''properties'' \<and>
      dom (dict e') = {''properties'', ''annotations''}) \<and>
   setitem example_project ''annotations'' (VDict [''a'' \<mapsto> VInt 1]) =
     Inr (example_project\<lparr>dict := (dict example_project)
       (''annotations'' \<mapsto> VDictObject [''a'' \<mapsto> VInt 1])\<rparr>)"
proof -
  let ?pp = "[''entityType'' \<mapsto> VStr ''org.sagebionetworks.repo.model.Project'',
             ''name'' \<mapsto> VStr ''MyProj'']"
  have pp: "container_map example_project ''properties'' = Some ?pp"
    by (simp add: example_project_def container_map_def)
  have pa: "container_map example_project ''annotations'' = Some [''foo'' \<mapsto> VStr ''bar'']"
    by (simp add: example_project_def container_map_def)
  have d: "dom (dict example_project) = {''properties'', ''annotations''}"
    by (auto simp: example_project_def)
  have c: "cls example_project = Project"
    by (simp add: example_project_def)
  have k1: "''description'' \<notin> dom (dict example_project) \<and>
            ''description'' \<in> set (property_keys (cls example_project))"
    by (simp add: d c Entity_property_keys_def)
  have k2: "''tissue'' \<notin> dom (dict example_project) \<and>
            ''tissue'' \<notin> set (property_keys (cls example_project))"
    by (simp add: d c Entity_property_keys_def)
  note r1 = assignment_routing [OF pp pa, of "''description''" "VStr ''d''",
      THEN conjunct2, THEN conjunct2, THEN conjunct1, THEN mp, OF k1]
  note r2 = assignment_routing [OF pp pa, of "''tissue''" "VStr ''liver''",
      THEN conjunct2, THEN conjunct2, THEN conjunct2]
  note r3 = assignment_routing [OF pp pa, of "''annotations''" "VDict [''a'' \<mapsto> VInt 1]",
      THEN conjunct2, THEN conjunct1, THEN spec, of "[''a'' \<mapsto> VInt 1]"]
  have 1: "\<exists>e'. setitem example_project ''description'' (VStr ''d'') = Inr e' \<and>
      cls e' = Project \<and>
      container_map e' ''properties'' = Some (?pp(''description'' \<mapsto> VStr ''d'')) \<and>
      dict e' ''annotations'' = dict example_project ''annotations''"
  proof -
    from r1 obtain e' where e': "setitem example_project ''description'' (VStr ''d'') = Inr e'"
      "cls e' = cls example_project"
      "container_map e' ''properties'' = Some (?pp(''description'' \<mapsto> VStr ''d''))"
      "\<forall>f. f \<noteq> ''properties'' \<longrightarrow> dict e' f = dict example_project f"
      by blast
    from e'(4) have "dict e' ''annotations'' = dict example_project ''annotations''" by simp
    with e'(1,2,3) c show ?thesis by auto
  qed
  have 2: "\<exists>e'. setattr example_project ''tissue'' (VStr ''liver'') = Inr e' \<and>
      container_map e' ''annotations'' =
        Some ([''foo'' \<mapsto> VStr ''bar'', ''tissue'' \<mapsto> VStr ''liver'']) \<and>
      dict e' ''properties'' = dict example_project ''properties'' \<and>
      dom (dict e') = {''properties'', ''annotations''}"
  proof -
    from r2 [THEN conjunct1, THEN mp, OF k2]
    obtain e' where e': "setitem example_project ''tissue'' (VStr ''liver'') = Inr e'"
      "container_map e' ''annotations'' = Some ([''foo'' \<mapsto> VStr ''bar'', ''tissue'' \<mapsto> VStr ''liver''])"
      "\<forall>f. f \<noteq> ''annotations'' \<longrightarrow> dict e' f = dict example_project f"
      by blast
    from e'(3) have p: "dict e' ''properties'' = dict example_project ''properties''" by simp
    from r2 [THEN conjunct2, THEN conjunct1, THEN spec, THEN mp, OF e'(1)]
    have dm: "dom (dict e') = {''properties'', ''annotations''}" by (simp only: d)
    have "setattr example_project ''tissue'' (VStr ''liver'') = Inr e'"
      using r2 [THEN conjunct2, THEN conjunct2] e'(1) by simp
    with e'(2) p dm show ?thesis by blast
  qed
  have 3: "setitem example_project ''annotations'' (VDict [''a'' \<mapsto> VInt 1]) =
     Inr (example_project\<lparr>dict := (dict example_project)
       (''annotations'' \<mapsto> VDictObject [''a'' \<mapsto> VInt 1])\<rparr>)"
    using r3 by simp
  show ?thesis using 1 2 3 by blast
qed

section \<open>Construction from a payload\<close>

lemma update_mapping:
  "mapping_of v = Some m \<Longrightarrow> mapping_of w = Some n \<Longrightarrow> update v w = Inr (rewrap v (m ++ n))"
  by (simp add: update_def)

lemma update_not_mapping: "mapping_of v = None \<Longrightarrow> update v w = Inl AttributeError"
  by (simp add: update_def)

lemma init_plain:
  assumes pm: "mapping_of pv = Some pm"
      and plain: "\<forall>n. pm ''annotations'' = Some n \<longrightarrow> \<not> isinstance_Mapping n"
      and am: "mapping_of av = Some am \<or> (av = VNone \<and> am = Map.empty)"
  shows "init (new c) pv av kw =
     (init_kwargs \<lparr>cls = c, dict = [''properties'' \<mapsto> VDictObject pm,
                                      ''annotations'' \<mapsto> VDictObject am]\<rparr> kw,
      pv, av)"
proof -
  have nested: "(''annotations'' \<in> dom pm \<and> isinstance_Mapping (the (pm ''annotations''))) = False"
    using plain by auto
  have p: "init_properties (new c) pv av =
      (Inr \<lparr>cls = c, dict = [''properties'' \<mapsto> VDictObject pm,
                               ''annotations'' \<mapsto> VDictObject Map.empty]\<rparr>, pv, av)"
  proof (cases "pm = Map.empty")
    case True
    then show ?thesis
      using pm by (simp add: init_properties_def truthy_mapping new_def)
  next
    case False
    then show ?thesis
      using pm
      by (simp add: init_properties_def truthy_mapping new_def update_entry_def
          update_mapping and_then_def fun_upd_twist nested del: conj_assoc)
  qed
  have a: "init_annotations \<lparr>cls = c, dict = [''properties'' \<mapsto> VDictObject pm,
                               ''annotations'' \<mapsto> VDictObject Map.empty]\<rparr> av =
      Inr \<lparr>cls = c, dict = [''properties'' \<mapsto> VDictObject pm,
                              ''annotations'' \<mapsto> VDictObject am]\<rparr>"
    using am
  proof
    assume m: "mapping_of av = Some am"
    then show ?thesis
      by (simp add: init_annotations_def isinstance_Mapping_def update_entry_def update_mapping
          and_then_def truthy_mapping)
  next
    assume "av = VNone \<and> am = Map.empty"
    then show ?thesis by (simp add: init_annotations_def)
  qed
  show ?thesis
    by (simp add: init_def p a and_then_def)
qed

lemma init_nested:
  assumes pm: "mapping_of pv = Some pm"
      and n: "pm ''annotations'' = Some n" "mapping_of n = Some nm"
      and am: "mapping_of av = Some am"
  shows "init (new c) pv av kw =
     (init_kwargs \<lparr>cls = c, dict = [''properties'' \<mapsto> VDictObject (pm(''annotations'' := None)),
                                      ''annotations'' \<mapsto> VDictObject (am ++ nm)]\<rparr> kw,
      rewrap pv (pm(''annotations'' := None)), rewrap av (am ++ nm))"
proof -
  have ne: "pm \<noteq> Map.empty" using n(1) by auto
  have nested: "''annotations'' \<in> dom pm" "isinstance_Mapping n"
    using n by (simp_all add: isinstance_Mapping_def domIff)
  have p: "init_properties (new c) pv av =
      (Inr \<lparr>cls = c, dict = [''properties'' \<mapsto> VDictObject (pm(''annotations'' := None)),
                               ''annotations'' \<mapsto> VDictObject Map.empty]\<rparr>,
       rewrap pv (pm(''annotations'' := None)), rewrap av (am ++ nm))"
    using pm ne n am
    by (simp add: init_properties_def truthy_mapping new_def update_entry_def
        update_mapping and_then_def Let_def mapping_of_rewrap fun_upd_twist nested)
  have a: "init_annotations \<lparr>cls = c, dict = [''properties'' \<mapsto> VDictObject (pm(''annotations'' := None)),
                               ''annotations'' \<mapsto> VDictObject Map.empty]\<rparr> (rewrap av (am ++ nm)) =
      Inr \<lparr>cls = c, dict = [''properties'' \<mapsto> VDictObject (pm(''annotations'' := None)),
                              ''annotations'' \<mapsto> VDictObject (am ++ nm)]\<rparr>"
    by (simp add: init_annotations_def isinstance_Mapping_def update_entry_def update_mapping
        and_then_def mapping_of_rewrap truthy_rewrap)
  show ?thesis
    by (simp add: init_def p a and_then_def)
qed

lemma init_nested_no_mapping:
  assumes pm: "mapping_of pv = Some pm"
      and n: "pm ''annotations'' = Some n" "mapping_of n = Some nm"
      and am: "mapping_of av = None"
  shows "init (new c) pv av kw = (Inl AttributeError, pv, av)"
proof -
  have ne: "pm \<noteq> Map.empty" using n(1) by auto
  have nested: "''annotations'' \<in> dom pm" "isinstance_Mapping n"
    using n by (simp_all add: isinstance_Mapping_def domIff)
  show ?thesis
    using pm ne n am
    by (simp add: init_def init_properties_def truthy_mapping update_not_mapping nested)
qed

lemma entity_type_to_class_Some:
  "entity_type_to_class s = Some c \<Longrightarrow> synapse_class c = s \<and> c \<noteq> Entity"
  by (auto simp: entity_type_to_class_def itersubclasses_Entity_def split: if_splits)

lemma entity_type_to_class_synapse_class:
  "c \<noteq> Entity \<Longrightarrow> entity_type_to_class (synapse_class c) = Some c"
  by (cases c) (simp_all add: entity_type_to_class_def itersubclasses_Entity_def)

lemma create_class_mapping:
  assumes "mapping_of pv = Some pm"
  shows "create_class c pv =
     (if c = Entity then
        (case pm ''entityType'' of
           None \<Rightarrow> Inr c
         | Some t \<Rightarrow>
             and_then (in_entity_type_to_class t)
               (\<lambda>registered. if registered then lookup_entity_type_to_class t else Inr c))
      else Inr c)"
  using assms
  by (auto simp: create_class_def contains_mapping subscript_mapping and_then_def
      split: option.splits)

lemma create_class_total:
  assumes pm: "mapping_of pv = Some pm"
      and hashable: "\<forall>t. pm ''entityType'' = Some t \<longrightarrow> \<not> isinstance_Mapping t"
  shows "\<exists>c'. create_class c pv = Inr c' \<and>
           (c' = c \<or> (c = Entity \<and> c' \<noteq> Entity \<and>
                       pm ''entityType'' = Some (VStr (synapse_class c'))))"
proof (cases "c = Entity")
  case False
  then show ?thesis by (simp add: create_class_mapping [OF pm])
next
  case True
  show ?thesis
  proof (cases "pm ''entityType''")
    case None
    then show ?thesis using True by (simp add: create_class_mapping [OF pm])
  next
    case (Some t)
    with hashable have nm: "\<not> isinstance_Mapping t" by simp
    show ?thesis
    proof (cases t)
      case (VStr s)
      show ?thesis
      proof (cases "entity_type_to_class s")
        case None
        then show ?thesis
          using True Some VStr
          by (simp add: create_class_mapping [OF pm] and_then_def domIff)
      next
        case (Some c')
        from entity_type_to_class_Some [OF Some] have "synapse_class c' = s" "c' \<noteq> Entity"
          by simp_all
        then show ?thesis
          using True \<open>pm ''entityType'' = Some t\<close> VStr Some
          by (simp add: create_class_mapping [OF pm] and_then_def domIff)
      qed
    qed (use True Some nm in \<open>simp_all add: create_class_mapping [OF pm] and_then_def
          isinstance_Mapping_def\<close>)
  qed
qed

lemma construct_plain:
  assumes pm: "mapping_of pv = Some pm"
      and plain: "\<forall>n. pm ''annotations'' = Some n \<longrightarrow> \<not> isinstance_Mapping n"
      and am: "mapping_of av = Some am \<or> (av = VNone \<and> am = Map.empty)"
  shows "\<exists>e'. construct c pv av = (Inr e', pv, av) \<and> cls e' = c \<and>
           container_map e' ''properties'' =
             Some (if c \<in> {Project, Folder, File}
                   then pm(''entityType'' \<mapsto> VStr (synapse_class c)) else pm) \<and>
           container_map e' ''annotations'' = Some am"
  by (cases c)
    (simp_all add: construct_def Project_init_def Folder_init_def File_init_def super_init_def
      init_plain [OF pm plain am] setitem_def container_def and_then_def container_map_def
      Entity_property_keys_def)

lemma construct_nested:
  assumes pm: "mapping_of pv = Some pm"
      and n: "pm ''annotations'' = Some n" "mapping_of n = Some nm"
      and am: "mapping_of av = Some am"
  shows "\<exists>e'. construct c pv av =
             (Inr e', rewrap pv (pm(''annotations'' := None)), rewrap av (am ++ nm)) \<and>
           cls e' = c \<and>
           container_map e' ''properties'' =
             Some (if c \<in> {Project, Folder, File}
                   then pm(''annotations'' := None, ''entityType'' \<mapsto> VStr (synapse_class c))
                   else pm(''annotations'' := None)) \<and>
           container_map e' ''annotations'' = Some (am ++ nm)"
  by (cases c)
    (simp_all add: construct_def Project_init_def Folder_init_def File_init_def super_init_def
      init_nested [OF pm n am] setitem_def container_def and_then_def container_map_def
      Entity_property_keys_def)

lemma construct_nested_no_mapping:
  assumes pm: "mapping_of pv = Some pm"
      and n: "pm ''annotations'' = Some n" "mapping_of n = Some nm"
      and am: "mapping_of av = None"
  shows "construct c pv av = (Inl AttributeError, pv, av)"
  by (cases c)
    (simp_all add: construct_def Project_init_def Folder_init_def File_init_def super_init_def
      init_nested_no_mapping [OF pm n am])

lemma registry_Folder:
  "entity_type_to_class ''org.sagebionetworks.repo.model.Folder'' = Some Folder"
  by (simp add: entity_type_to_class_def itersubclasses_Entity_def)

lemma create_payload_nested_fails:
  assumes pm: "mapping_of pv = Some pm"
      and n: "pm ''annotations'' = Some n" "mapping_of n = Some nm"
      and am: "mapping_of av = None"
      and hashable: "\<forall>t. pm ''entityType'' = Some t \<longrightarrow> \<not> isinstance_Mapping t"
  shows "create c (AVal pv) av = (Inl AttributeError, AVal pv, av)"
proof -
  from create_class_total [OF pm hashable, of c]
  obtain c' where "create_class c pv = Inr c'" by blast
  then show ?thesis
    by (simp add: create_def create_from_def construct_nested_no_mapping [OF pm n am])
qed

lemma create_payload_nested:
  assumes pm: "mapping_of pv = Some pm"
      and n: "pm ''annotations'' = Some n" "mapping_of n = Some nm"
      and am: "mapping_of av = Some am"
      and hashable: "\<forall>t. pm ''entityType'' = Some t \<longrightarrow> \<not> isinstance_Mapping t"
  shows "\<exists>e'. create c (AVal pv) av =
             (Inr e', AVal (rewrap pv (pm(''annotations'' := None))), rewrap av (am ++ nm)) \<and>
           container_map e' ''properties'' =
             Some (if cls e' \<in> {Project, Folder, File}
                   then pm(''annotations'' := None, ''entityType'' \<mapsto> VStr (synapse_class (cls e')))
                   else pm(''annotations'' := None)) \<and>
           container_map e' ''annotations'' = Some (am ++ nm)"
proof -
  from create_class_total [OF pm hashable, of c]
  obtain c' where c': "create_class c pv = Inr c'" by blast
  from construct_nested [OF pm n am, of c']
  obtain e' where "construct c' pv av =
             (Inr e', rewrap pv (pm(''annotations'' := None)), rewrap av (am ++ nm))"
    "cls e' = c'"
    "container_map e' ''properties'' =
             Some (if c' \<in> {Project, Folder, File}
                   then pm(''annotations'' := None, ''entityType'' \<mapsto> VStr (synapse_class c'))
                   else pm(''annotations'' := None))"
    "container_map e' ''annotations'' = Some (am ++ nm)"
    by blast
  then show ?thesis
    using c' by (intro exI [of _ e']) (simp add: create_def create_from_def)
qed

lemma create_payload_dispatch:
  assumes pm: "mapping_of pv = Some pm"
      and plain: "\<forall>n. pm ''annotations'' = Some n \<longrightarrow> \<not> isinstance_Mapping n"
      and am: "mapping_of av = Some am \<or> (av = VNone \<and> am = Map.empty)"
      and hashable: "\<forall>t. pm ''entityType'' = Some t \<longrightarrow> \<not> isinstance_Mapping t"
  shows "\<exists>e'. create c (AVal pv) av = (Inr e', AVal pv, av) \<and>
           cls e' =
             (if c = Entity then
                (case pm ''entityType'' of
                   Some (VStr s) \<Rightarrow> (case entity_type_to_class s of Some c' \<Rightarrow> c' | None \<Rightarrow> c)
                 | _ \<Rightarrow> c)
              else c)"
proof -
  let ?target = "if c = Entity then
                (case pm ''entityType'' of
                   Some (VStr s) \<Rightarrow> (case entity_type_to_class s of Some c' \<Rightarrow> c' | None \<Rightarrow> c)
                 | _ \<Rightarrow> c)
              else c"
  have c': "create_class c pv = Inr ?target"
    using hashable
    by (auto simp: create_class_mapping [OF pm] and_then_def isinstance_Mapping_def domIff
        split: option.splits val.splits)
  from construct_plain [OF pm plain am, of ?target]
  obtain e' where "construct ?target pv av = (Inr e', pv, av)" "cls e' = ?target"
    by blast
  then show ?thesis
    using c' by (intro exI [of _ e']) (simp add: create_def create_from_def)
qed

lemma dispatch_example:
  "\<exists>e'. create Entity (AVal folder_payload) VNone = (Inr e', AVal folder_payload, VNone) \<and>
      cls e' = Folder"
proof -
  let ?pm = "[''entityType'' \<mapsto> VStr ''org.sagebionetworks.repo.model.Folder'',
            ''name'' \<mapsto> VStr ''x'', ''parentId'' \<mapsto> VStr ''syn1'']"
  have pm: "mapping_of folder_payload = Some ?pm"
    by (simp add: folder_payload_def)
  have plain: "\<forall>n. ?pm ''annotations'' = Some n \<longrightarrow> \<not> isinstance_Mapping n" by simp
  have hashable: "\<forall>t. ?pm ''entityType'' = Some t \<longrightarrow> \<not> isinstance_Mapping t"
    by (simp add: isinstance_Mapping_def)
  have am: "mapping_of VNone = Some Map.empty \<or> (VNone = VNone \<and> Map.empty = Map.empty)"
    by simp
  from create_payload_dispatch [OF pm plain am hashable, of Entity]
  show ?thesis by (simp add: registry_Folder)
qed

text \<open>
  C4, at the input where the code leaves it. A payload with a nested \<open>annotations\<close>
  mapping, given to the factory with no annotations argument: \<open>__init__\<close> calls
  \<open>annotations.update\<close> on \<open>None\<close> and the construction ends in \<open>AttributeError\<close>;
  no entity is made. (With a mapping as annotations argument the nested entries do reach
  the annotations container and leave the properties: \<open>create_payload_nested\<close>.)
\<close>

theorem nested_annotations_without_argument:
  "create Entity (AVal annotated_payload) VNone =
     (Inl AttributeError, AVal annotated_payload, VNone)"
proof -
  let ?pm = "[''name'' \<mapsto> VStr ''x'', ''annotations'' \<mapsto> VDict [''foo'' \<mapsto> VStr ''bar'']]"
  have pm: "mapping_of annotated_payload = Some ?pm"
    by (simp add: annotated_payload_def)
  have n: "?pm ''annotations'' = Some (VDict [''foo'' \<mapsto> VStr ''bar''])"
    "mapping_of (VDict [''foo'' \<mapsto> VStr ''bar'']) = Some [''foo'' \<mapsto> VStr ''bar'']"
    by simp_all
  have am: "mapping_of VNone = None" by simp
  have hashable: "\<forall>t. ?pm ''entityType'' = Some t \<longrightarrow> \<not> isinstance_Mapping t" by simp
  show ?thesis
    by (rule create_payload_nested_fails [OF pm n am hashable])
qed

text \<open>
  C6, at the input where the code leaves it. The Folder payload with a nested
  \<open>annotations\<close> mapping, passed to the base factory: the Folder class is chosen, and its
  construction ends in \<open>AttributeError\<close> for the reason above, so no Folder is
  returned. (Without a nested mapping the dispatch gives the registered variant, or the
  requested one: \<open>create_payload_dispatch\<close>.)
\<close>

theorem dispatch_with_nested_annotations:
  "create Entity (AVal annotated_folder_payload) VNone =
     (Inl AttributeError, AVal annotated_folder_payload, VNone)"
proof -
  let ?pm = "[''entityType'' \<mapsto> VStr ''org.sagebionetworks.repo.model.Folder'',
            ''name'' \<mapsto> VStr ''x'',
            ''parentId'' \<mapsto> VStr ''syn1'',
            ''annotations'' \<mapsto> VDict [''foo'' \<mapsto> VStr ''bar'']]"
  have pm: "mapping_of annotated_folder_payload = Some ?pm"
    by (simp add: annotated_folder_payload_def)
  have n: "?pm ''annotations'' = Some (VDict [''foo'' \<mapsto> VStr ''bar''])"
    "mapping_of (VDict [''foo'' \<mapsto> VStr ''bar'']) = Some [''foo'' \<mapsto> VStr ''bar'']"
    by simp_all
  have am: "mapping_of VNone = None" by simp
  have hashable: "\<forall>t. ?pm ''entityType'' = Some t \<longrightarrow> \<not> isinstance_Mapping t"
    by (simp add: isinstance_Mapping_def)
  show ?thesis
    by (rule create_payload_nested_fails [OF pm n am hashable])
qed

section \<open>Coercion\<close>

text \<open>
  C7. \<open>to_entity\<close> returns an \<open>Entity\<close> as it is and leaves it as it was; hence
  coercing the result of a coercion gives that result again, for every argument, an
  exception of the first coercion being the outcome of both.
\<close>

theorem to_entity_idempotent:
  "to_entity c (AEntity e) = (Inr e, AEntity e) \<and>
   and_then (fst (to_entity c x)) (\<lambda>y. fst (to_entity c' (AEntity y))) = fst (to_entity c x)"
proof -
  have pass: "to_entity k (AEntity y) = (Inr y, AEntity y)" for k y
    by (simp add: to_entity_def)
  have "and_then r (\<lambda>y. fst (to_entity c' (AEntity y))) = r" for r :: "error + entity"
    by (cases r) (simp_all add: and_then_def pass)
  with pass show ?thesis by simp
qed

lemma to_entity_example:
  "\<exists>e'. to_entity Entity (AVal folder_payload) = (Inr e', AVal folder_payload) \<and> cls e' = Folder"
  using dispatch_example by (auto simp: to_entity_def)

section \<open>Construction from a prototype\<close>

lemma rewrap_rewrap: "rewrap (rewrap v m) m' = rewrap v m'"
  by (cases v) auto

lemma init_properties_after:
  assumes "mapping_of pv = Some pm"
  shows "fst (snd (init_properties s pv av)) = pv \<or>
         fst (snd (init_properties s pv av)) = rewrap pv (pm(''annotations'' := None))"
  using assms
  by (auto simp: init_properties_def Let_def split: sum.splits)

lemma init_after: "fst (snd (init s pv av kw)) = fst (snd (init_properties s pv av))"
  by (cases "init_properties s pv av") (auto simp: init_def split: sum.splits)

lemma super_init_after:
  assumes "mapping_of pv = Some pm"
  shows "fst (snd (super_init s t pv av kw)) = pv \<or>
         fst (snd (super_init s t pv av kw)) = rewrap pv (pm(''annotations'' := None))"
  using init_properties_after [OF assms]
  by (auto simp: super_init_def init_after)

lemma File_init_after:
  assumes "mapping_of pv = Some pm"
  shows "fst (snd (File_init s VNone VNone b pv av [])) = pv \<or>
         fst (snd (File_init s VNone VNone b pv av [])) = rewrap pv (pm(''annotations'' := None))"
proof -
  obtain r p' a' where r: "super_init s (synapse_class File) pv av [] = (r, p', a')"
    by (cases "super_init s (synapse_class File) pv av []") auto
  have "fst (snd (File_init s VNone VNone b pv av [])) = p'"
    using r by (cases r) (simp_all add: File_init_def)
  then show ?thesis
    using super_init_after [OF assms, of s "synapse_class File" av "[]"] r by simp
qed

lemma construct_after:
  assumes "mapping_of pv = Some pm"
  shows "fst (snd (construct c pv av)) = pv \<or>
         fst (snd (construct c pv av)) = rewrap pv (pm(''annotations'' := None))"
proof (cases c)
  case Project
  then show ?thesis
    using super_init_after [OF assms] by (simp add: construct_def Project_init_def)
next
  case Folder
  then show ?thesis
    using super_init_after [OF assms] by (simp add: construct_def Folder_init_def)
next
  case File
  then show ?thesis
    using File_init_after [OF assms] by (simp add: construct_def)
qed (use init_properties_after [OF assms] in \<open>simp_all add: construct_def init_after\<close>)

lemma create_from_after:
  assumes "mapping_of pv = Some pm"
  shows "fst (snd (create_from c pv av)) = pv \<or>
         fst (snd (create_from c pv av)) = rewrap pv (pm(''annotations'' := None))"
  using construct_after [OF assms]
  by (cases "create_class c pv") (simp_all add: create_from_def)

text \<open>
  C9. For every prototype \<open>e\<close> whose properties container is a mapping, passed to
  \<open>create\<close> with an annotations argument that \<open>e.annotations + annotations\<close> accepts:
  after the call \<open>e\<close> itself is changed, its own properties no longer hold \<open>id\<close>, and
  they are otherwise as before (but for a nested \<open>annotations\<close> mapping, which
  \<open>__init__\<close> removes as well). This holds whether the call returns or raises later.
\<close>

theorem create_strips_id_of_prototype:
  assumes pv: "dict e ''properties'' = Some pv" "mapping_of pv = Some p"
      and ea: "dict e ''annotations'' = Some ea"
      and comb: "add ea a = Inr anns"
  shows "\<exists>p'. snd (create c (AEntity e) a) =
                 (AEntity (e\<lparr>dict := (dict e)(''properties'' \<mapsto> rewrap pv p')\<rparr>), a) \<and>
              ''id'' \<notin> dom p' \<and>
              (\<forall>k. k \<noteq> ''id'' \<and> k \<noteq> ''annotations'' \<longrightarrow> p' k = p k)"
proof (cases "''id'' \<in> dom p")
  case False
  have same: "e\<lparr>dict := (dict e)(''properties'' \<mapsto> rewrap pv p)\<rparr> = e"
    using pv by (simp add: rewrap_same map_upd_triv)
  have "snd (create c (AEntity e) a) = (AEntity e, a)"
    using pv ea comb False
    by (simp add: create_def container_def and_then_def del_item_mapping [OF pv(2)])
  with same False show ?thesis by (intro exI [of _ p]) simp
next
  case True
  let ?p1 = "p(''id'' := None)"
  let ?props1 = "rewrap pv ?p1"
  have m1: "mapping_of ?props1 = Some ?p1" by (simp add: mapping_of_rewrap)
  obtain r props2 a2 where r: "create_from c ?props1 anns = (r, props2, a2)"
    by (cases "create_from c ?props1 anns") auto
  have post: "snd (create c (AEntity e) a) =
      (AEntity (e\<lparr>dict := (dict e)(''properties'' \<mapsto> props2)\<rparr>), a)"
    using pv ea comb True r
    by (simp add: create_def container_def and_then_def del_item_mapping [OF pv(2)])
  from create_from_after [OF m1, of c anns] r
  have "props2 = rewrap pv ?p1 \<or> props2 = rewrap pv (?p1(''annotations'' := None))"
    by (simp add: rewrap_rewrap)
  then show ?thesis
  proof
    assume "props2 = rewrap pv ?p1"
    with post show ?thesis by (intro exI [of _ ?p1]) simp
  next
    assume "props2 = rewrap pv (?p1(''annotations'' := None))"
    with post show ?thesis by (intro exI [of _ "?p1(''annotations'' := None)"]) simp
  qed
qed

theorem create_strips_id_of_prototype_witness:
  "container_map folder_prototype ''properties'' =
     Some [''id'' \<mapsto> VStr ''syn123'', ''name'' \<mapsto> VStr ''x'',
           ''entityType'' \<mapsto> VStr ''org.sagebionetworks.repo.model.Folder''] \<and>
   (\<exists>p'. snd (create Entity (AEntity folder_prototype) VNone) =
           (AEntity (folder_prototype\<lparr>dict := (dict folder_prototype)
              (''properties'' \<mapsto> VDictObject p')\<rparr>), VNone) \<and>
         ''id'' \<notin> dom p' \<and> p' ''name'' = Some (VStr ''x''))"
proof -
  let ?p = "[''id'' \<mapsto> VStr ''syn123'', ''name'' \<mapsto> VStr ''x'',
             ''entityType'' \<mapsto> VStr ''org.sagebionetworks.repo.model.Folder'']"
  have pv: "dict folder_prototype ''properties'' = Some (VDictObject ?p)"
    by (simp add: folder_prototype_def)
  have p: "mapping_of (VDictObject ?p) = Some ?p" by simp
  have ea: "dict folder_prototype ''annotations'' = Some (VDictObject [''foo'' \<mapsto> VStr ''bar''])"
    by (simp add: folder_prototype_def)
  have comb: "add (VDictObject [''foo'' \<mapsto> VStr ''bar'']) VNone
      = Inr (VDictObject [''foo'' \<mapsto> VStr ''bar''])"
    by simp
  have cm: "container_map folder_prototype ''properties'' = Some ?p"
    by (simp add: container_map_def folder_prototype_def)
  from create_strips_id_of_prototype [OF pv p ea comb, of Entity]
  obtain p' where post: "snd (create Entity (AEntity folder_prototype) VNone) =
           (AEntity (folder_prototype\<lparr>dict := (dict folder_prototype)
              (''properties'' \<mapsto> rewrap (VDictObject ?p) p')\<rparr>), VNone)"
    and noid: "''id'' \<notin> dom p'"
    and rest: "\<forall>k. k \<noteq> ''id'' \<and> k \<noteq> ''annotations'' \<longrightarrow> p' k = ?p k"
    by blast
  from rest have "p' ''name'' = Some (VStr ''x'')" by simp
  with post noid cm show ?thesis by auto
qed

text \<open>
  C3, as the code has it. For every prototype \<open>e\<close> with an identifier property, whose
  properties hold no mapping under \<open>annotations\<close> or \<open>entityType\<close>, and every
  annotations argument for which \<open>e.annotations + annotations\<close> is the \<open>DictObject\<close>
  \<open>anns\<close>: \<open>create\<close> returns a new entity of the class the dispatch chooses, with the
  annotations \<open>anns\<close> and with the properties of \<open>e\<close> minus \<open>id\<close>, to which the
  constructors of Project, Folder and File add their own \<open>entityType\<close>. Called on the
  base class the properties are exactly those of \<open>e\<close> minus \<open>id\<close>.
\<close>

theorem clone_prototype:
  assumes pv: "dict e ''properties'' = Some pv" "mapping_of pv = Some p"
      and ea: "dict e ''annotations'' = Some ea"
      and comb: "add ea a = Inr (VDictObject anns)"
      and ident: "''id'' \<in> dom p"
      and plain: "\<forall>n. p ''annotations'' = Some n \<longrightarrow> \<not> isinstance_Mapping n"
      and hashable: "\<forall>t. p ''entityType'' = Some t \<longrightarrow> \<not> isinstance_Mapping t"
  shows "\<exists>e'. create c (AEntity e) a =
             (Inr e', AEntity (e\<lparr>dict := (dict e)(''properties'' \<mapsto> rewrap pv (p(''id'' := None)))\<rparr>), a) \<and>
           create_class c (rewrap pv (p(''id'' := None))) = Inr (cls e') \<and>
           container_map e' ''properties'' =
             Some (if cls e' \<in> {Project, Folder, File}
                   then p(''id'' := None, ''entityType'' \<mapsto> VStr (synapse_class (cls e')))
                   else p(''id'' := None)) \<and>
           container_map e' ''annotations'' = Some anns \<and>
           (\<forall>m. container_map e' ''properties'' = Some m \<longrightarrow> ''id'' \<notin> dom m) \<and>
           (c = Entity \<longrightarrow> container_map e' ''properties'' = Some (p(''id'' := None))) \<and>
           (c \<noteq> Entity \<longrightarrow> cls e' = c)"
proof -
  let ?p1 = "p(''id'' := None)"
  let ?props1 = "rewrap pv ?p1"
  have m1: "mapping_of ?props1 = Some ?p1" by (simp add: mapping_of_rewrap)
  have plain1: "\<forall>n. ?p1 ''annotations'' = Some n \<longrightarrow> \<not> isinstance_Mapping n"
    using plain by simp
  have hashable1: "\<forall>t. ?p1 ''entityType'' = Some t \<longrightarrow> \<not> isinstance_Mapping t"
    using hashable by simp
  from create_class_total [OF m1 hashable1, of c]
  obtain c' where c': "create_class c ?props1 = Inr c'"
    and which: "c' = c \<or> (c = Entity \<and> c' \<noteq> Entity \<and>
                  ?p1 ''entityType'' = Some (VStr (synapse_class c')))"
    by blast
  have dobj: "mapping_of (VDictObject anns) = Some anns \<or> (VDictObject anns = VNone \<and> anns = Map.empty)"
    by simp
  from construct_plain [OF m1 plain1 dobj, of c']
  obtain e' where e': "construct c' ?props1 (VDictObject anns) = (Inr e', ?props1, VDictObject anns)"
    and cls: "cls e' = c'"
    and props: "container_map e' ''properties'' =
             Some (if c' \<in> {Project, Folder, File}
                   then ?p1(''entityType'' \<mapsto> VStr (synapse_class c')) else ?p1)"
    and anns: "container_map e' ''annotations'' = Some anns"
    by blast
  have run: "create c (AEntity e) a =
      (Inr e', AEntity (e\<lparr>dict := (dict e)(''properties'' \<mapsto> ?props1)\<rparr>), a)"
    using pv ea comb ident c' e'
    by (simp add: create_def create_from_def container_def and_then_def
        del_item_mapping [OF pv(2)])
  have base: "c = Entity \<longrightarrow> container_map e' ''properties'' = Some ?p1"
  proof
    assume c: "c = Entity"
    from which show "container_map e' ''properties'' = Some ?p1"
    proof
      assume "c' = c"
      with c props show ?thesis by simp
    next
      assume "c = Entity \<and> c' \<noteq> Entity \<and> ?p1 ''entityType'' = Some (VStr (synapse_class c'))"
      then have "?p1(''entityType'' \<mapsto> VStr (synapse_class c')) = ?p1"
        by (intro map_upd_triv) simp
      with props show ?thesis by simp
    qed
  qed
  have other: "c \<noteq> Entity \<longrightarrow> cls e' = c"
    using which cls by auto
  have noid: "\<forall>m. container_map e' ''properties'' = Some m \<longrightarrow> ''id'' \<notin> dom m"
    using props by (auto split: if_splits)
  show ?thesis
    using run c' cls props anns base other noid by (intro exI [of _ e']) simp
qed

theorem clone_prototype_witness:
  "\<exists>e'. fst (create Entity (AEntity folder_prototype) VNone) = Inr e' \<and>
      cls e' = Folder \<and>
      container_map e' ''properties'' =
        Some [''name'' \<mapsto> VStr ''x'',
              ''entityType'' \<mapsto> VStr ''org.sagebionetworks.repo.model.Folder''] \<and>
      container_map e' ''annotations'' = Some [''foo'' \<mapsto> VStr ''bar'']"
proof -
  let ?p = "[''id'' \<mapsto> VStr ''syn123'', ''name'' \<mapsto> VStr ''x'',
             ''entityType'' \<mapsto> VStr ''org.sagebionetworks.repo.model.Folder'']"
  let ?q = "[''name'' \<mapsto> VStr ''x'',
             ''entityType'' \<mapsto> VStr ''org.sagebionetworks.repo.model.Folder'']"
  have pv: "dict folder_prototype ''properties'' = Some (VDictObject ?p)"
    by (simp add: folder_prototype_def)
  have p: "mapping_of (VDictObject ?p) = Some ?p" by simp
  have ea: "dict folder_prototype ''annotations'' = Some (VDictObject [''foo'' \<mapsto> VStr ''bar''])"
    by (simp add: folder_prototype_def)
  have comb: "add (VDictObject [''foo'' \<mapsto> VStr ''bar'']) VNone
      = Inr (VDictObject [''foo'' \<mapsto> VStr ''bar''])"
    by simp
  have ident: "''id'' \<in> dom ?p" by simp
  have plain: "\<forall>n. ?p ''annotations'' = Some n \<longrightarrow> \<not> isinstance_Mapping n" by simp
  have hashable: "\<forall>t. ?p ''entityType'' = Some t \<longrightarrow> \<not> isinstance_Mapping t"
    by (simp add: isinstance_Mapping_def)
  have q: "?p(''id'' := None) = ?q" by simp
  from clone_prototype [OF pv p ea comb ident plain hashable, of Entity]
  obtain e' where full: "create Entity (AEntity folder_prototype) VNone =
        (Inr e', AEntity (folder_prototype\<lparr>dict := (dict folder_prototype)
           (''properties'' \<mapsto> rewrap (VDictObject ?p) (?p(''id'' := None)))\<rparr>), VNone)"
    and c: "create_class Entity (rewrap (VDictObject ?p) (?p(''id'' := None))) = Inr (cls e')"
    and anns: "container_map e' ''annotations'' = Some [''foo'' \<mapsto> VStr ''bar'']"
    and props: "Entity = Entity \<longrightarrow> container_map e' ''properties'' = Some (?p(''id'' := None))"
    by blast
  from full have run: "fst (create Entity (AEntity folder_prototype) VNone) = Inr e'"
    by simp
  have "create_class Entity (VDictObject ?q) = Inr Folder"
    by (simp add: create_class_def and_then_def registry_Folder domIff)
  with c have "cls e' = Folder" by (simp add: q)
  moreover from props have "container_map e' ''properties'' = Some ?q" by (simp add: q)
  ultimately show ?thesis using run anns by blast
qed

text \<open>
  C3 as stated fails in two ways. Called on a variant whose constructor sets
  \<open>entityType\<close>, the factory adds that property: \<open>Folder.create\<close> on a prototype with
  the properties \<open>id\<close> and \<open>name\<close> returns a Folder whose properties are \<open>name\<close> and
  \<open>entityType\<close>. And a mapping that the prototype's properties hold under \<open>annotations\<close>
  is moved by \<open>__init__\<close>: \<open>Entity.create\<close> on a prototype with the properties \<open>id\<close>
  and \<open>annotations = {'a': 1}\<close> and no annotations returns an entity with no property and
  the annotation \<open>a\<close>.
\<close>

theorem clone_counterexample:
  "container_map plain_prototype ''properties'' =
     Some [''id'' \<mapsto> VStr ''syn123'', ''name'' \<mapsto> VStr ''x''] \<and>
   fst (create Folder (AEntity plain_prototype) VNone) = Inr folder_clone \<and>
   container_map folder_clone ''properties'' =
     Some [''name'' \<mapsto> VStr ''x'',
           ''entityType'' \<mapsto> VStr ''org.sagebionetworks.repo.model.Folder''] \<and>
   container_map folder_clone ''properties'' \<noteq>
     Some ([''id'' \<mapsto> VStr ''syn123'', ''name'' \<mapsto> VStr ''x''](''id'' := None)) \<and>
   container_map nested_prototype ''properties'' =
     Some [''id'' \<mapsto> VStr ''syn123'', ''annotations'' \<mapsto> VDict [''a'' \<mapsto> VInt 1]] \<and>
   container_map nested_prototype ''annotations'' = Some Map.empty \<and>
   fst (create Entity (AEntity nested_prototype) VNone) = Inr nested_clone \<and>
   container_map nested_clone ''properties'' = Some Map.empty \<and>
   container_map nested_clone ''properties'' \<noteq>
     Some ([''id'' \<mapsto> VStr ''syn123'',
            ''annotations'' \<mapsto> VDict [''a'' \<mapsto> VInt 1]](''id'' := None)) \<and>
   container_map nested_clone ''annotations'' = Some [''a'' \<mapsto> VInt 1]"
proof -
  have 1: "container_map plain_prototype ''properties'' =
     Some [''id'' \<mapsto> VStr ''syn123'', ''name'' \<mapsto> VStr ''x'']"
    by (simp add: container_map_def plain_prototype_def)
  have 2: "fst (create Folder (AEntity plain_prototype) VNone) = Inr folder_clone"
    by (simp add: create_def create_from_def create_class_def construct_def Folder_init_def
        super_init_def init_def init_properties_def init_annotations_def update_entry_def
        update_def setitem_def new_def isinstance_Mapping_def and_then_def container_def
        plain_prototype_def folder_clone_def Entity_property_keys_def fun_upd_twist)
  have 3: "container_map folder_clone ''properties'' =
     Some [''name'' \<mapsto> VStr ''x'',
           ''entityType'' \<mapsto> VStr ''org.sagebionetworks.repo.model.Folder'']"
    by (simp add: container_map_def folder_clone_def)
  have "[''name'' \<mapsto> VStr ''x'',
           ''entityType'' \<mapsto> VStr ''org.sagebionetworks.repo.model.Folder''] ''entityType''
      \<noteq> ([''id'' \<mapsto> VStr ''syn123'', ''name'' \<mapsto> VStr ''x''](''id'' := None)) ''entityType''"
    by simp
  then have 4: "[''name'' \<mapsto> VStr ''x'',
           ''entityType'' \<mapsto> VStr ''org.sagebionetworks.repo.model.Folder'']
      \<noteq> [''id'' \<mapsto> VStr ''syn123'', ''name'' \<mapsto> VStr ''x''](''id'' := None)"
    by metis
  have 5: "container_map nested_prototype ''properties'' =
     Some [''id'' \<mapsto> VStr ''syn123'', ''annotations'' \<mapsto> VDict [''a'' \<mapsto> VInt 1]]"
    by (simp add: container_map_def nested_prototype_def)
  have 6: "container_map nested_prototype ''annotations'' = Some Map.empty"
    by (simp add: container_map_def nested_prototype_def)
  have 7: "fst (create Entity (AEntity nested_prototype) VNone) = Inr nested_clone"
    by (simp add: create_def create_from_def create_class_def construct_def
        init_def init_properties_def init_annotations_def update_entry_def
        update_def new_def isinstance_Mapping_def and_then_def container_def
        nested_prototype_def nested_clone_def fun_upd_twist Let_def)
  have 8: "container_map nested_clone ''properties'' = Some Map.empty"
    by (simp add: container_map_def nested_clone_def)
  have "Map.empty ''annotations''
      \<noteq> ([''id'' \<mapsto> VStr ''syn123'',
            ''annotations'' \<mapsto> VDict [''a'' \<mapsto> VInt 1]](''id'' := None)) ''annotations''"
    by simp
  then have 9: "Map.empty
      \<noteq> [''id'' \<mapsto> VStr ''syn123'',
            ''annotations'' \<mapsto> VDict [''a'' \<mapsto> VInt 1]](''id'' := None)"
    by metis
  have 10: "container_map nested_clone ''annotations'' = Some [''a'' \<mapsto> VInt 1]"
    by (simp add: container_map_def nested_clone_def)
  show ?thesis using 1 2 3 4 5 6 7 8 9 10 by simp
qed

end
